theory Spec2Isabelle
  imports Complex_Main
begin

section \<open>Numbers of the source\<close>

text \<open>
  The engine computes on JavaScript numbers, which are IEEE 754 doubles. The operators
  whose meaning is specific to JavaScript are written out: the remainder \<^verbatim>\<open>a % b\<close>, which
  truncates the quotient towards zero, takes the sign of the dividend and is exact on
  doubles, \<^verbatim>\<open>Math.round\<close>, which rounds to the nearest integer with ties going up, and
  \<^verbatim>\<open>Math.atan2\<close>.

  Two models of the arithmetic are used. In the exact model \<open>+\<close>, \<open>-\<close>, \<open>*\<close> and \<open>/\<close> are
  the operations of the reals; it serves for the dates and angles of practical size, where
  the rounding of a double is many orders of magnitude below every threshold the code
  tests. In the double model the result of each of the four operations and every decimal
  literal is rounded to the nearest double by \<open>fl\<close>; the functions of that model carry the
  suffix \<open>double\<close>, and it serves wherever the rounding decides what the code returns.
\<close>

definition js_trunc :: "real \<Rightarrow> int" where
  "js_trunc x = (if x < 0 then \<lceil>x\<rceil> else \<lfloor>x\<rfloor>)"

definition js_rem :: "real \<Rightarrow> real \<Rightarrow> real" where
  "js_rem a b = a - b * of_int (js_trunc (a / b))"

definition js_round :: "real \<Rightarrow> int" where
  "js_round x = \<lfloor>x + 1 / 2\<rfloor>"

definition js_atan2 :: "real \<Rightarrow> real \<Rightarrow> real" where
  "js_atan2 y x =
     (if 0 < x then arctan (y / x)
      else if x < 0 then (if 0 \<le> y then arctan (y / x) + pi else arctan (y / x) - pi)
      else if 0 < y then pi / 2
      else if y < 0 then - (pi / 2)
      else 0)"

section \<open>Double precision\<close>

text \<open>Rounding to the nearest integer, with a tie going to the even one.\<close>

definition round_even :: "real \<Rightarrow> int" where
  "round_even y =
     (let f = \<lfloor>y\<rfloor>; r = y - of_int f
      in if r < 1 / 2 then f else if 1 / 2 < r then f + 1 else if even f then f else f + 1)"

text \<open>
  The binary exponent of a magnitude \<open>x\<close>, found by halving the interval \<open>[lo, hi)\<close>: the
  \<open>e\<close> with \<open>2 ^ e \<le> x < 2 ^ (e + 1)\<close>, and the least exponent \<open>lo\<close> for a magnitude
  below \<open>2 ^ lo\<close>.
\<close>

fun binade :: "nat \<Rightarrow> int \<Rightarrow> int \<Rightarrow> real \<Rightarrow> int" where
  "binade 0 lo hi x = lo"
| "binade (Suc n) lo hi x =
     (let mid = (lo + hi) div 2
      in if 2 powi mid \<le> x then binade n mid hi x else binade n lo mid x)"

text \<open>
  The double nearest to a real, ties to even: 53 significant bits, exponents from -1022
  (below which the doubles are the multiples of \<open>2 ^ -1074\<close>) up to 1023. A magnitude of
  \<open>2 ^ 1024\<close> or more, which a double holds as infinity, does not occur below.
\<close>

definition fl :: "real \<Rightarrow> real" where
  "fl x =
     (let e = binade 12 (- 1022) 1024 \<bar>x\<bar>;
          q = 2 powi (e - 52)
      in q * of_int (round_even (x / q)))"

definition d_add :: "real \<Rightarrow> real \<Rightarrow> real" where
  "d_add a b = fl (a + b)"

definition d_sub :: "real \<Rightarrow> real \<Rightarrow> real" where
  "d_sub a b = fl (a - b)"

definition d_mul :: "real \<Rightarrow> real \<Rightarrow> real" where
  "d_mul a b = fl (a * b)"

definition d_div :: "real \<Rightarrow> real \<Rightarrow> real" where
  "d_div a b = fl (a / b)"

section \<open>Constant tables\<close>

definition ZODIAC :: "string list" where
  "ZODIAC = [''Aries'', ''Taurus'', ''Gemini'', ''Cancer'', ''Leo'', ''Virgo'', ''Libra'',
             ''Scorpio'', ''Sagittarius'', ''Capricorn'', ''Aquarius'', ''Pisces'']"

text \<open>\<^verbatim>\<open>ZODIAC[i]\<close>: an index outside the array reads \<^verbatim>\<open>undefined\<close>, here \<open>None\<close>.\<close>

definition zodiac_at :: "int \<Rightarrow> string option" where
  "zodiac_at i = (if 0 \<le> i \<and> i < 12 then Some (ZODIAC ! nat i) else None)"

record planet =
  name :: string
  motion :: real
  j2000 :: real

text \<open>The table of the natal-chart module (ten bodies), in declaration order.\<close>

definition PLANETS :: "(string \<times> planet) list" where
  "PLANETS =
    [(''sun'',     \<lparr>name = ''Sun'',     motion = 0.9856, j2000 = 280.46\<rparr>),
     (''moon'',    \<lparr>name = ''Moon'',    motion = 13.176, j2000 = 218.32\<rparr>),
     (''mercury'', \<lparr>name = ''Mercury'', motion = 4.092,  j2000 = 252.25\<rparr>),
     (''venus'',   \<lparr>name = ''Venus'',   motion = 1.602,  j2000 = 181.98\<rparr>),
     (''mars'',    \<lparr>name = ''Mars'',    motion = 0.524,  j2000 = 355.45\<rparr>),
     (''jupiter'', \<lparr>name = ''Jupiter'', motion = 0.0831, j2000 = 34.40\<rparr>),
     (''saturn'',  \<lparr>name = ''Saturn'',  motion = 0.0335, j2000 = 49.94\<rparr>),
     (''uranus'',  \<lparr>name = ''Uranus'',  motion = 0.0117, j2000 = 313.23\<rparr>),
     (''neptune'', \<lparr>name = ''Neptune'', motion = 0.006,  j2000 = 304.88\<rparr>),
     (''pluto'',   \<lparr>name = ''Pluto'',   motion = 0.004,  j2000 = 238.96\<rparr>)]"

text \<open>The table of the transits module: the same entries without Pluto.\<close>

definition PLANETS_transits :: "(string \<times> planet) list" where
  "PLANETS_transits = butlast PLANETS"

definition J2000 :: real where
  "J2000 = 2451545.0"

definition OBLIQUITY :: real where
  "OBLIQUITY = 23.4393"

section \<open>Angle arithmetic\<close>

text \<open>
  \<^verbatim>\<open>function norm(a) { a = a % 360; return a < 0 ? a + 360 : a; }\<close>, the same in both
  modules, in the exact model.
\<close>

definition norm_angle :: "real \<Rightarrow> real" where
  "norm_angle a = (let a' = js_rem a 360 in if a' < 0 then a' + 360 else a')"

text \<open>
  The same in the double model: the remainder is exact and the sum is rounded. For a
  negative remainder of magnitude up to \<open>2 ^ -45\<close> the sum rounds to 360.
\<close>

definition norm_double :: "real \<Rightarrow> real" where
  "norm_double a = (let a' = js_rem a 360 in if a' < 0 then d_add a' 360 else a')"

record sign_info =
  sign :: "string option"
  degree :: real
  signIndex :: int

text \<open>
  \<^verbatim>\<open>getSign\<close> of the natal-chart module: the degree is rounded to two decimals. The
  normalisation is the one of the double model, so that an argument it sends to 360 gets
  the index 12 and no sign, as in the source.
\<close>

definition getSign :: "real \<Rightarrow> sign_info" where
  "getSign l =
     (let n = norm_double l;
          si = \<lfloor>n / 30\<rfloor>
      in \<lparr>sign = zodiac_at si,
          degree = of_int (js_round (js_rem n 30 * 100)) / 100,
          signIndex = si\<rparr>)"

text \<open>
  \<^verbatim>\<open>sign\<close> of the transits module: the degree is rounded to one decimal. The source returns
  only the name and the degree; the index it reads the name at is kept in the record.
\<close>

definition sign_transits :: "real \<Rightarrow> sign_info" where
  "sign_transits l =
     (let n = norm_double l
      in \<lparr>sign = zodiac_at \<lfloor>n / 30\<rfloor>,
          degree = of_int (js_round (js_rem n 30 * 10)) / 10,
          signIndex = \<lfloor>n / 30\<rfloor>\<rparr>)"

section \<open>Julian days\<close>

text \<open>
  \<^verbatim>\<open>toJD(y, m, d, h = 0)\<close> of the natal-chart module. The arguments are JavaScript numbers,
  so they are reals here; a calendar date passes whole numbers.
\<close>

definition toJD :: "real \<Rightarrow> real \<Rightarrow> real \<Rightarrow> real \<Rightarrow> real" where
  "toJD y m d h =
     (let y' = (if m \<le> 2 then y - 1 else y);
          m' = (if m \<le> 2 then m + 12 else m);
          A = \<lfloor>y' / 100\<rfloor>;
          jd = of_int \<lfloor>365.25 * (y' + 4716)\<rfloor> + of_int \<lfloor>30.6001 * (m' + 1)\<rfloor> + d + 2
               - of_int A + of_int \<lfloor>of_int A / 4 :: real\<rfloor> - 1524.5
      in jd + h / 24)"

text \<open>\<^verbatim>\<open>toJD(y, m, d)\<close> of the transits module: the same without the hour.\<close>

definition toJD_transits :: "real \<Rightarrow> real \<Rightarrow> real \<Rightarrow> real" where
  "toJD_transits y m d =
     (let y' = (if m \<le> 2 then y - 1 else y);
          m' = (if m \<le> 2 then m + 12 else m);
          A = \<lfloor>y' / 100\<rfloor>
      in of_int \<lfloor>365.25 * (y' + 4716)\<rfloor> + of_int \<lfloor>30.6001 * (m' + 1)\<rfloor> + d + 2
         - of_int A + of_int \<lfloor>of_int A / 4 :: real\<rfloor> - 1524.5)"

text \<open>
  \<^verbatim>\<open>fromJD\<close>, the same in both modules, in two parts: the calendar fields year, month and
  day that the source computes, and the template string \<^verbatim>\<open>YYYY-MM-DD\<close> it returns.
\<close>

definition fromJD_parts :: "real \<Rightarrow> int \<times> int \<times> int" where
  "fromJD_parts jd =
     (let Z = \<lfloor>jd + 0.5\<rfloor>;
          alpha = \<lfloor>(of_int Z - 1867216.25) / 36524.25 :: real\<rfloor>;
          A = (if Z < 2299161 then Z else Z + 1 + alpha - \<lfloor>of_int alpha / 4 :: real\<rfloor>);
          B = A + 1524;
          C = \<lfloor>(of_int B - 122.1) / 365.25 :: real\<rfloor>;
          D = \<lfloor>365.25 * of_int C :: real\<rfloor>;
          E = \<lfloor>of_int (B - D) / 30.6001 :: real\<rfloor>;
          day = \<lfloor>of_int B - of_int D - of_int \<lfloor>30.6001 * of_int E :: real\<rfloor> :: real\<rfloor>;
          month = (if E < 14 then E - 1 else E - 13);
          year = (if month > 2 then C - 4716 else C - 4715)
      in (year, month, day))"

text \<open>\<^verbatim>\<open>String(n)\<close> for a whole number: its decimal digits, after a minus sign below zero.\<close>

definition digit_char :: "nat \<Rightarrow> char" where
  "digit_char d = ''0123456789'' ! d"

fun decimal :: "nat \<Rightarrow> string" where
  "decimal n = (if 10 \<le> n then decimal (n div 10) @ [digit_char (n mod 10)] else [digit_char n])"

definition show_number :: "int \<Rightarrow> string" where
  "show_number i = (if 0 \<le> i then decimal (nat i) else CHR ''-'' # decimal (nat \<bar>i\<bar>))"

text \<open>\<^verbatim>\<open>s.padStart(2, "0")\<close>\<close>

definition padStart2 :: "string \<Rightarrow> string" where
  "padStart2 s = replicate (2 - length s) (CHR ''0'') @ s"

definition fromJD :: "real \<Rightarrow> string" where
  "fromJD jd =
     (case fromJD_parts jd of (year, month, day) \<Rightarrow>
        show_number year @ ''-'' @ padStart2 (show_number month) @ ''-'' @
        padStart2 (show_number day))"

text \<open>
  The calendar dates a round trip is claimed for: Gregorian dates, with the usual leap
  years.
\<close>

definition leap_year :: "int \<Rightarrow> bool" where
  "leap_year y = (y mod 4 = 0 \<and> (y mod 100 \<noteq> 0 \<or> y mod 400 = 0))"

definition days_in_month :: "int \<Rightarrow> int \<Rightarrow> int" where
  "days_in_month y m =
     (if m = 2 then (if leap_year y then 29 else 28)
      else if m = 4 \<or> m = 6 \<or> m = 9 \<or> m = 11 then 30
      else 31)"

definition valid_date :: "int \<Rightarrow> int \<Rightarrow> int \<Rightarrow> bool" where
  "valid_date y m d = (1 \<le> m \<and> m \<le> 12 \<and> 1 \<le> d \<and> d \<le> days_in_month y m)"

section \<open>Orbital model\<close>

text \<open>
  \<^verbatim>\<open>lon(p, jd)\<close>: the mean longitude of the body with key \<open>p\<close>, and 0 for a key that is not
  in the table. The two modules differ in the table only.
\<close>

definition lon_in :: "(string \<times> planet) list \<Rightarrow> string \<Rightarrow> real \<Rightarrow> real" where
  "lon_in tbl p jd =
     (case map_of tbl p of
        Some pl \<Rightarrow> norm_angle (j2000 pl + motion pl * (jd - J2000))
      | None \<Rightarrow> 0)"

definition lon :: "string \<Rightarrow> real \<Rightarrow> real" where
  "lon = lon_in PLANETS"

definition lon_transits :: "string \<Rightarrow> real \<Rightarrow> real" where
  "lon_transits = lon_in PLANETS_transits"

section \<open>Chart geometry\<close>

definition degToRad :: "real \<Rightarrow> real" where
  "degToRad d = d * pi / 180"

definition radToDeg :: "real \<Rightarrow> real" where
  "radToDeg r = r * 180 / pi"

definition gmst :: "real \<Rightarrow> real" where
  "gmst jd =
     (let T = (jd - 2451545.0) / 36525;
          theta = 280.46061837 + 360.98564736629 * (jd - 2451545.0) + 0.000387933 * T * T
                  - T * T * T / 38710000
      in norm_angle theta)"

definition lst :: "real \<Rightarrow> real \<Rightarrow> real" where
  "lst jd longitude = norm_angle (gmst jd + longitude)"

definition calcMidheaven :: "real \<Rightarrow> real \<Rightarrow> real" where
  "calcMidheaven jd longitude =
     (let localST = lst jd longitude;
          oblRad = degToRad OBLIQUITY;
          lstRad = degToRad localST;
          mc = radToDeg (js_atan2 (sin lstRad) (cos lstRad * cos oblRad))
      in norm_angle mc)"

text \<open>\<^verbatim>\<open>getHouse(planetLon, ascendant)\<close>: the whole-sign house of a longitude.\<close>

definition getHouse :: "real \<Rightarrow> real \<Rightarrow> int" where
  "getHouse planetLon ascendant =
     (signIndex (getSign planetLon) - signIndex (getSign ascendant) + 12) mod 12 + 1"

definition HOUSE_MEANINGS :: "string list" where
  "HOUSE_MEANINGS =
    [''Self, identity, appearance'',
     ''Values, possessions, resources'',
     ''Communication, siblings, local travel'',
     ''Home, family, roots'',
     ''Creativity, romance, children'',
     ''Health, work, service'',
     ''Partnerships, marriage, contracts'',
     ''Transformation, shared resources, death'',
     ''Philosophy, travel, higher education'',
     ''Career, public image, authority'',
     ''Friends, groups, aspirations'',
     ''Spirituality, unconscious, endings'']"

section \<open>Aspects\<close>

record aspect_def =
  angle :: real
  orb :: real
  symbol :: string
  nature :: string

text \<open>
  The aspect table of the natal-chart module, in declaration order, which is the order
  \<^verbatim>\<open>Object.entries\<close> iterates in. The symbols are the UTF-8 bytes of the source's
  characters.
\<close>

definition ASPECTS :: "(string \<times> aspect_def) list" where
  "ASPECTS =
    [(''conjunction'', \<lparr>angle = 0,   orb = 8, symbol = [CHR 0xE2, CHR 0x98, CHR 0x8C], nature = ''major''\<rparr>),
     (''sextile'',     \<lparr>angle = 60,  orb = 4, symbol = [CHR 0xE2, CHR 0x9A, CHR 0xB9], nature = ''harmonious''\<rparr>),
     (''square'',      \<lparr>angle = 90,  orb = 6, symbol = [CHR 0xE2, CHR 0x96, CHR 0xA1], nature = ''challenging''\<rparr>),
     (''trine'',       \<lparr>angle = 120, orb = 6, symbol = [CHR 0xE2, CHR 0x96, CHR 0xB3], nature = ''harmonious''\<rparr>),
     (''opposition'',  \<lparr>angle = 180, orb = 8, symbol = [CHR 0xE2, CHR 0x98, CHR 0x8D], nature = ''challenging''\<rparr>)]"

record aspect_hit =
  hit_aspect :: string
  hit_symbol :: string
  hit_nature :: string
  hit_orb :: real
  hit_exact :: bool

text \<open>
  \<^verbatim>\<open>let sep = Math.abs(lon1 - lon2); if (sep > 180) sep = 360 - sep;\<close>
\<close>

definition separation :: "real \<Rightarrow> real \<Rightarrow> real" where
  "separation lon1 lon2 = (let sep = \<bar>lon1 - lon2\<bar> in if sep > 180 then 360 - sep else sep)"

text \<open>The loop of \<^verbatim>\<open>findAspect\<close> over the entries of the table: the first match returns.\<close>

fun findAspect_loop :: "real \<Rightarrow> (string \<times> aspect_def) list \<Rightarrow> aspect_hit option" where
  "findAspect_loop sep [] = None"
| "findAspect_loop sep ((nm, data) # rest) =
     (let diff = \<bar>sep - angle data\<bar>
      in if diff \<le> orb data
         then Some \<lparr>hit_aspect = nm, hit_symbol = symbol data, hit_nature = nature data,
                    hit_orb = of_int (js_round (diff * 100)) / 100, hit_exact = (diff < 1)\<rparr>
         else findAspect_loop sep rest)"

definition findAspect :: "real \<Rightarrow> real \<Rightarrow> aspect_hit option" where
  "findAspect lon1 lon2 = findAspect_loop (separation lon1 lon2) ASPECTS"

section \<open>Synastry\<close>

text \<open>
  The fields of a natal chart that \<^verbatim>\<open>calculateSynastry\<close> reads: the optional name of the
  input, the longitude of the ascendant, and the name and longitude of every planet.
\<close>

record chart_planet =
  cp_name :: string
  cp_longitude :: real

record natal_chart =
  input_name :: "string option"
  ascendant_longitude :: real
  planets :: "chart_planet list"

record cross_aspect =
  person1_planet :: string
  person2_planet :: string
  ca_hit :: aspect_hit
  ca_interpretation :: string

record house_overlay =
  ho_planet :: string
  in_house :: int
  meaning :: string

record synastry_summary =
  total_aspects :: nat
  harmonious_aspects :: nat
  challenging_aspects :: nat
  conjunctions :: nat
  compatibility_index :: int

record synastry =
  person1 :: string
  person2 :: string
  summary :: synastry_summary
  cross_aspects :: "cross_aspect list"
  person2_in_person1_houses :: "house_overlay list"
  person1_in_person2_houses :: "house_overlay list"

definition interpretSynastryAspect :: "string \<Rightarrow> string \<Rightarrow> string \<Rightarrow> string \<Rightarrow> string" where
  "interpretSynastryAspect planet1 planet2 asp ntr =
     (let base = planet1 @ '' '' @ asp @ '' '' @ planet2
      in if ntr = ''harmonious''
         then base @ '': Easy flow of energy, mutual support and understanding''
         else if ntr = ''challenging''
         then base @ '': Dynamic tension that can fuel growth or create friction''
         else base @ '': Powerful connection that merges these planetary energies'')"

text \<open>\<^verbatim>\<open>chart.input.name || dflt\<close>: a missing or empty name gives the default.\<close>

definition name_or :: "string option \<Rightarrow> string \<Rightarrow> string" where
  "name_or n dflt = (case n of None \<Rightarrow> dflt | Some s \<Rightarrow> if s = [] then dflt else s)"

text \<open>\<^verbatim>\<open>HOUSE_MEANINGS[h - 1]\<close> in a template string: \<^verbatim>\<open>undefined\<close> prints as its name.\<close>

definition house_meaning :: "int \<Rightarrow> string" where
  "house_meaning h =
     (if 1 \<le> h \<and> h \<le> 12 then HOUSE_MEANINGS ! nat (h - 1) else ''undefined'')"

definition house_overlays :: "natal_chart \<Rightarrow> string \<Rightarrow> chart_planet list \<Rightarrow> house_overlay list" where
  "house_overlays chart dflt ps =
     map (\<lambda>p. \<lparr>ho_planet = cp_name p,
               in_house = getHouse (cp_longitude p) (ascendant_longitude chart),
               meaning = cp_name p @ '' activates '' @ name_or (input_name chart) dflt @
                         [CHR 0x27] @ ''s house of '' @
                         house_meaning (getHouse (cp_longitude p) (ascendant_longitude chart))\<rparr>) ps"

text \<open>The two nested loops of \<^verbatim>\<open>calculateSynastry\<close> that collect the cross-aspects.\<close>

definition crossAspects :: "natal_chart \<Rightarrow> natal_chart \<Rightarrow> cross_aspect list" where
  "crossAspects chart1 chart2 =
     concat (map (\<lambda>p1. concat (map (\<lambda>p2.
        (case findAspect (cp_longitude p1) (cp_longitude p2) of
           None \<Rightarrow> []
         | Some a \<Rightarrow>
             [\<lparr>person1_planet = cp_name p1, person2_planet = cp_name p2, ca_hit = a,
               ca_interpretation = interpretSynastryAspect (cp_name p1) (cp_name p2)
                                  (hit_aspect a) (hit_nature a)\<rparr>]))
        (planets chart2))) (planets chart1))"

text \<open>
  \<^verbatim>\<open>calculateSynastry\<close>. The counts are whole numbers and the sum of the first with half
  the second is exact on doubles; the quotient by the number of cross-aspects and its
  product with 100 are rounded, which decides the index at a tie.
\<close>

definition calculateSynastry :: "natal_chart \<Rightarrow> natal_chart \<Rightarrow> synastry" where
  "calculateSynastry chart1 chart2 =
     (let cas = crossAspects chart1 chart2;
          houseOverlays1 = house_overlays chart1 ''Person 1'' (planets chart2);
          houseOverlays2 = house_overlays chart2 ''Person 2'' (planets chart1);
          harmoniousCount = length (filter (\<lambda>a. hit_nature (ca_hit a) = ''harmonious'') cas);
          challengingCount = length (filter (\<lambda>a. hit_nature (ca_hit a) = ''challenging'') cas);
          majorConjunctions = length (filter (\<lambda>a. hit_aspect (ca_hit a) = ''conjunction'') cas)
      in \<lparr>person1 = name_or (input_name chart1) ''Person 1'',
          person2 = name_or (input_name chart2) ''Person 2'',
          summary =
            \<lparr>total_aspects = length cas,
             harmonious_aspects = harmoniousCount,
             challenging_aspects = challengingCount,
             conjunctions = majorConjunctions,
             compatibility_index =
               js_round
                 (d_mul
                    (d_div (real harmoniousCount + real majorConjunctions * 0.5)
                       (real (if length cas = 0 then 1 else length cas)))
                    100)\<rparr>,
          cross_aspects = cas,
          person2_in_person1_houses = houseOverlays1,
          person1_in_person2_houses = houseOverlays2\<rparr>)"

text \<open>
  The planets of the chart that \<^verbatim>\<open>calculateNatalChart\<close> builds for the Julian day \<open>jd\<close>: one
  entry for every body of the table, in its order, with the longitude rounded to two
  decimals.
\<close>

definition chart_planets :: "real \<Rightarrow> chart_planet list" where
  "chart_planets jd =
     map (\<lambda>(key, data). \<lparr>cp_name = name data,
                           cp_longitude = of_int (js_round (lon key jd * 100)) / 100\<rparr>) PLANETS"

text \<open>
  The fields of a chart that \<^verbatim>\<open>calculateSynastry\<close> reads, for a name, an ascendant and the
  Julian day of the birth.
\<close>

definition chart_of :: "string \<Rightarrow> real \<Rightarrow> real \<Rightarrow> natal_chart" where
  "chart_of nm asc jd = \<lparr>input_name = Some nm, ascendant_longitude = asc, planets = chart_planets jd\<rparr>"

text \<open>
  The counts of the summary as the specification words them, read off the pairs of a
  planet of the first chart and a planet of the second: the pairs in aspect, those whose
  aspect is of harmonious nature, and those whose aspect is a conjunction.
\<close>

definition aspect_of :: "chart_planet \<times> chart_planet \<Rightarrow> aspect_hit option" where
  "aspect_of pr = findAspect (cp_longitude (fst pr)) (cp_longitude (snd pr))"

text \<open>The entry that the loops push for a pair in aspect.\<close>

definition cross_entry :: "chart_planet \<times> chart_planet \<Rightarrow> aspect_hit \<Rightarrow> cross_aspect" where
  "cross_entry pr a =
     \<lparr>person1_planet = cp_name (fst pr), person2_planet = cp_name (snd pr), ca_hit = a,
      ca_interpretation = interpretSynastryAspect (cp_name (fst pr)) (cp_name (snd pr))
                            (hit_aspect a) (hit_nature a)\<rparr>"

definition planet_pairs :: "natal_chart \<Rightarrow> natal_chart \<Rightarrow> (chart_planet \<times> chart_planet) list" where
  "planet_pairs chart1 chart2 = List.product (planets chart1) (planets chart2)"

definition aspect_pairs :: "natal_chart \<Rightarrow> natal_chart \<Rightarrow> (chart_planet \<times> chart_planet) list" where
  "aspect_pairs chart1 chart2 =
     filter (\<lambda>pr. aspect_of pr \<noteq> None) (planet_pairs chart1 chart2)"

definition harmonious_pairs :: "natal_chart \<Rightarrow> natal_chart \<Rightarrow> (chart_planet \<times> chart_planet) list" where
  "harmonious_pairs chart1 chart2 =
     filter (\<lambda>pr. map_option hit_nature (aspect_of pr) = Some ''harmonious'')
       (planet_pairs chart1 chart2)"

definition conjunction_pairs :: "natal_chart \<Rightarrow> natal_chart \<Rightarrow> (chart_planet \<times> chart_planet) list" where
  "conjunction_pairs chart1 chart2 =
     filter (\<lambda>pr. map_option hit_aspect (aspect_of pr) = Some ''conjunction'')
       (planet_pairs chart1 chart2)"

text \<open>
  The index of the specification on exact numbers, and the index as doubles evaluate the
  same expression: the quotient is rounded, then its product with 100.
\<close>

definition index_exact :: "nat \<Rightarrow> nat \<Rightarrow> nat \<Rightarrow> int" where
  "index_exact h c n =
     (if n = 0 then 0 else js_round ((real h + 0.5 * real c) / real n * 100))"

definition index_double :: "nat \<Rightarrow> nat \<Rightarrow> nat \<Rightarrow> int" where
  "index_double h c n =
     (if n = 0 then 0 else js_round (d_mul (d_div (real h + 0.5 * real c) (real n)) 100))"

section \<open>Moon phases\<close>








section \<open>Retrograde scan\<close>

text \<open>The direction of one step: the source's strings \<^verbatim>\<open>"direct"\<close> and \<^verbatim>\<open>"retrograde"\<close>
  (\<^verbatim>\<open>"retro"\<close> in the transits module).\<close>

datatype direction = Direct | Retrograde

record transit_event =
  ev_type :: string
  ev_body :: string
  ev_date :: string
  ev_sign :: "string option"
  ev_degree :: real
  ev_duration_days :: "int option"
  ev_jd :: real

text \<open>
  The variables of the scan: the previous longitude \<^verbatim>\<open>pL\<close>, the previous direction
  \<^verbatim>\<open>pD\<close>, the Julian day of the open retrograde start \<^verbatim>\<open>sJd\<close> (\<open>None\<close> is \<^verbatim>\<open>null\<close>) and the
  list of events \<^verbatim>\<open>r\<close>.
\<close>

record scan_state =
  scan_pL :: "real option"
  scan_pD :: "direction option"
  scan_sJd :: "real option"
  scan_r :: "transit_event list"

text \<open>
  The event pushed at a station. \<open>pre\<close> is \<^verbatim>\<open>"retrograde"\<close> in the natal-chart module and
  \<^verbatim>\<open>"retro"\<close> in the transits module, \<open>sg\<close> is the sign function of the module.
\<close>

definition station_event ::
  "(real \<Rightarrow> sign_info) \<Rightarrow> string \<Rightarrow> string \<Rightarrow> string \<Rightarrow> real \<Rightarrow> real \<Rightarrow> int option \<Rightarrow> transit_event" where
  "station_event sg pre kind body jd l dur =
     \<lparr>ev_type = pre @ ''_'' @ kind, ev_body = body, ev_date = fromJD jd,
      ev_sign = sign (sg l), ev_degree = degree (sg l), ev_duration_days = dur,
      ev_jd = of_int (js_round (jd * 100)) / 100\<rparr>"

text \<open>
  \<^verbatim>\<open>let m = l - pL; if (m > 180) m -= 360; if (m < -180) m += 360;\<close>
\<close>

definition unwrap_delta :: "real \<Rightarrow> real" where
  "unwrap_delta m0 =
     (let m1 = (if m0 > 180 then m0 - 360 else m0)
      in if m1 < - 180 then m1 + 360 else m1)"

text \<open>
  The body of the inner loop at the sample \<open>jd\<close>. \<open>L\<close> is the longitude of the scanned body
  as a function of the Julian day, \<^verbatim>\<open>lon(k, jd)\<close> in the source. \<^verbatim>\<open>else if (sJd)\<close> tests a
  number: \<^verbatim>\<open>null\<close> and 0 are false.
\<close>

definition retro_sample ::
  "(real \<Rightarrow> real) \<Rightarrow> (real \<Rightarrow> sign_info) \<Rightarrow> string \<Rightarrow> string \<Rightarrow> real \<Rightarrow> scan_state \<Rightarrow> scan_state" where
  "retro_sample L sg pre body jd st =
     (let l = L jd;
          st' =
            (case scan_pL st of
               None \<Rightarrow> st
             | Some p \<Rightarrow>
                 (let m = unwrap_delta (l - p);
                      d = (if m > 0 then Direct else Retrograde);
                      st2 =
                        (case scan_pD st of
                           None \<Rightarrow> st
                         | Some pd \<Rightarrow>
                             if d \<noteq> pd then
                               (if d = Retrograde then
                                  st\<lparr>scan_sJd := Some jd,
                                     scan_r := scan_r st @ [station_event sg pre ''start'' body jd l None]\<rparr>
                                else
                                  (case scan_sJd st of
                                     None \<Rightarrow> st
                                   | Some s0 \<Rightarrow>
                                       if s0 \<noteq> 0 then
                                         st\<lparr>scan_r := scan_r st @
                                                [station_event sg pre ''end'' body jd l
                                                   (Some (js_round (jd - s0)))],
                                            scan_sJd := None\<rparr>
                                       else st))
                             else st)
                  in st2\<lparr>scan_pD := Some d\<rparr>))
      in st'\<lparr>scan_pL := Some l\<rparr>)"

text \<open>\<^verbatim>\<open>const st = k === "mercury" || k === "venus" ? 0.5 : 1;\<close>\<close>

definition retro_step :: "string \<Rightarrow> real" where
  "retro_step k = (if k = ''mercury'' \<or> k = ''venus'' then 0.5 else 1)"

text \<open>The loop \<^verbatim>\<open>for (let jd = s; jd < e; jd += st)\<close>, from the sample \<open>jd\<close> on.\<close>

function retro_loop ::
  "(real \<Rightarrow> real) \<Rightarrow> (real \<Rightarrow> sign_info) \<Rightarrow> string \<Rightarrow> string \<Rightarrow> string \<Rightarrow> real \<Rightarrow> real \<Rightarrow> scan_state
   \<Rightarrow> scan_state" where
  "retro_loop L sg pre body k e jd st =
     (if jd < e
      then retro_loop L sg pre body k e (jd + retro_step k) (retro_sample L sg pre body jd st)
      else st)"
  by pat_completeness auto
termination
proof (relation "measure (\<lambda>(L, sg, pre, body, k, e, jd, st). nat \<lceil>(e - jd) * 2\<rceil>)")
  show "wf (measure (\<lambda>(L, sg, pre, body, k, e, jd, st). nat \<lceil>(e - jd) * 2\<rceil>))"
    by simp
next
  fix L :: "real \<Rightarrow> real" and sg :: "real \<Rightarrow> sign_info"
    and pre body k :: string and e jd :: real and st :: scan_state
  assume lt: "jd < e"
  have "1 / 2 \<le> retro_step k" by (simp add: retro_step_def)
  then have "(e - (jd + retro_step k)) * 2 \<le> (e - jd) * 2 - 1" by simp
  then have "\<lceil>(e - (jd + retro_step k)) * 2\<rceil> \<le> \<lceil>(e - jd) * 2\<rceil> - 1"
    by (metis ceiling_mono ceiling_diff_one)
  moreover from lt have "0 < \<lceil>(e - jd) * 2\<rceil>" by (simp add: ceiling_less_iff less_ceiling_iff)
  ultimately show
    "((L, sg, pre, body, k, e, jd + retro_step k, retro_sample L sg pre body jd st),
      (L, sg, pre, body, k, e, jd, st))
     \<in> measure (\<lambda>(L, sg, pre, body, k, e, jd, st). nat \<lceil>(e - jd) * 2\<rceil>)"
    by simp
qed

declare retro_loop.simps [simp del]

text \<open>
  \<^verbatim>\<open>PLANETS[k].name\<close>. The source reads it only for the keys of its scan list, all of
  which are in the table; for another key the read would throw, and the model has the
  empty name there.
\<close>

definition body_name :: "(string \<times> planet) list \<Rightarrow> string \<Rightarrow> string" where
  "body_name tbl k = (case map_of tbl k of Some pl \<Rightarrow> name pl | None \<Rightarrow> [])"

text \<open>
  One pass of the outer loop: the scan of the body \<open>k\<close> over \<open>[s, e)\<close>, with fresh \<^verbatim>\<open>pL\<close>,
  \<^verbatim>\<open>pD\<close> and \<^verbatim>\<open>sJd\<close>, appending to the events \<open>acc\<close> found so far.
\<close>

definition scan_body ::
  "(string \<Rightarrow> real \<Rightarrow> real) \<Rightarrow> (real \<Rightarrow> sign_info) \<Rightarrow> (string \<times> planet) list \<Rightarrow> string \<Rightarrow> real \<Rightarrow> real
   \<Rightarrow> transit_event list \<Rightarrow> string \<Rightarrow> transit_event list" where
  "scan_body lonf sg tbl pre s e acc k =
     scan_r (retro_loop (lonf k) sg pre (body_name tbl k) k e s
               \<lparr>scan_pL = None, scan_pD = None, scan_sJd = None, scan_r = acc\<rparr>)"

definition retro_bodies :: "string list" where
  "retro_bodies =
     [''mercury'', ''venus'', ''mars'', ''jupiter'', ''saturn'', ''uranus'', ''neptune'', ''pluto'']"

definition retro_bodies_transits :: "string list" where
  "retro_bodies_transits =
     [''mercury'', ''venus'', ''mars'', ''jupiter'', ''saturn'', ''uranus'', ''neptune'']"

text \<open>
  \<^verbatim>\<open>calcRetrogrades(year)\<close> of the natal-chart module. The final \<^verbatim>\<open>sort\<close> by \<^verbatim>\<open>jd\<close> is
  stable, as \<open>sort_key\<close> is.
\<close>

definition calcRetrogrades :: "int \<Rightarrow> transit_event list" where
  "calcRetrogrades year =
     (let s = toJD (of_int year) 1 1 0;
          e = toJD (of_int year + 1) 1 1 0
      in sort_key ev_jd (foldl (scan_body lon getSign PLANETS ''retrograde'' s e) [] retro_bodies))"

text \<open>\<^verbatim>\<open>retrogrades(year)\<close> of the transits module.\<close>

definition retrogrades :: "int \<Rightarrow> transit_event list" where
  "retrogrades year =
     (let s = toJD_transits (of_int year) 1 1;
          e = toJD_transits (of_int year + 1) 1 1
      in sort_key ev_jd
           (foldl (scan_body lon_transits sign_transits PLANETS_transits ''retro'' s e) []
              retro_bodies_transits))"

section \<open>The retrograde scan in double precision\<close>

text \<open>
  The scan of the natal-chart module again, with every sum, difference, product and
  quotient rounded to a double and every decimal literal read as the double nearest to
  it. \<^verbatim>\<open>toJD\<close> adds its terms from left to right.
\<close>

definition toJD_double :: "real \<Rightarrow> real \<Rightarrow> real \<Rightarrow> real \<Rightarrow> real" where
  "toJD_double y m d h =
     (let y' = (if m \<le> 2 then d_sub y 1 else y);
          m' = (if m \<le> 2 then d_add m 12 else m);
          A = of_int \<lfloor>d_div y' 100\<rfloor>;
          jd = d_sub (d_add (d_sub (d_add (d_add (d_add
                 (of_int \<lfloor>d_mul 365.25 (d_add y' 4716)\<rfloor>)
                 (of_int \<lfloor>d_mul (fl 30.6001) (d_add m' 1)\<rfloor>)) d) 2) A)
                 (of_int \<lfloor>d_div A 4\<rfloor>)) 1524.5
      in d_add jd (d_div h 24))"

text \<open>\<^verbatim>\<open>lon(p, jd)\<close>: the two entries of the table are decimal literals.\<close>

definition lon_double :: "string \<Rightarrow> real \<Rightarrow> real" where
  "lon_double p jd =
     (case map_of PLANETS p of
        Some pl \<Rightarrow> norm_double (d_add (fl (j2000 pl)) (d_mul (fl (motion pl)) (d_sub jd J2000)))
      | None \<Rightarrow> 0)"

text \<open>
  Of an event this model keeps the type, the body, the duration and the rounded Julian
  day, by which the events are sorted; the date string, the sign and the degree are left
  out.
\<close>

record station =
  st_type :: string
  st_body :: string
  st_duration_days :: "int option"
  st_jd :: real

record scan_double =
  dbl_pL :: "real option"
  dbl_pD :: "direction option"
  dbl_sJd :: "real option"
  dbl_r :: "station list"

definition station_double :: "string \<Rightarrow> string \<Rightarrow> real \<Rightarrow> int option \<Rightarrow> station" where
  "station_double kind body jd dur =
     \<lparr>st_type = ''retrograde_'' @ kind, st_body = body, st_duration_days = dur,
      st_jd = d_div (of_int (js_round (d_mul jd 100))) 100\<rparr>"

definition unwrap_double :: "real \<Rightarrow> real" where
  "unwrap_double m0 =
     (let m1 = (if m0 > 180 then d_sub m0 360 else m0)
      in if m1 < - 180 then d_add m1 360 else m1)"

text \<open>The body of the inner loop for the key \<open>k\<close> at the sample \<open>jd\<close>.\<close>

definition retro_sample_double :: "string \<Rightarrow> real \<Rightarrow> scan_double \<Rightarrow> scan_double" where
  "retro_sample_double k jd st =
     (let l = lon_double k jd;
          st' =
            (case dbl_pL st of
               None \<Rightarrow> st
             | Some p \<Rightarrow>
                 (let m = unwrap_double (d_sub l p);
                      d = (if m > 0 then Direct else Retrograde);
                      st2 =
                        (case dbl_pD st of
                           None \<Rightarrow> st
                         | Some pd \<Rightarrow>
                             if d \<noteq> pd then
                               (if d = Retrograde then
                                  st\<lparr>dbl_sJd := Some jd,
                                     dbl_r := dbl_r st @
                                       [station_double ''start'' (body_name PLANETS k) jd None]\<rparr>
                                else
                                  (case dbl_sJd st of
                                     None \<Rightarrow> st
                                   | Some s0 \<Rightarrow>
                                       if s0 \<noteq> 0 then
                                         st\<lparr>dbl_r := dbl_r st @
                                                [station_double ''end'' (body_name PLANETS k) jd
                                                   (Some (js_round (d_sub jd s0)))],
                                            dbl_sJd := None\<rparr>
                                       else st))
                             else st)
                  in st2\<lparr>dbl_pD := Some d\<rparr>))
      in st'\<lparr>dbl_pL := Some l\<rparr>)"

text \<open>
  The loop \<^verbatim>\<open>for (let jd = s; jd < e; jd += st)\<close>. The sum \<^verbatim>\<open>jd += st\<close> is rounded, so the
  loop need not end: \<open>None\<close> is the scan that never returns.
\<close>

partial_function (option) retro_loop_double ::
  "string \<Rightarrow> real \<Rightarrow> real \<Rightarrow> scan_double \<Rightarrow> scan_double option" where
  "retro_loop_double k e jd st =
     (if jd < e
      then retro_loop_double k e (d_add jd (retro_step k)) (retro_sample_double k jd st)
      else Some st)"

definition scan_body_double :: "real \<Rightarrow> real \<Rightarrow> station list \<Rightarrow> string \<Rightarrow> station list option" where
  "scan_body_double s e acc k =
     map_option dbl_r
       (retro_loop_double k e s \<lparr>dbl_pL = None, dbl_pD = None, dbl_sJd = None, dbl_r = acc\<rparr>)"

text \<open>The outer loop over the keys: a scan that does not return ends the whole call.\<close>

fun scan_bodies_double :: "real \<Rightarrow> real \<Rightarrow> station list \<Rightarrow> string list \<Rightarrow> station list option" where
  "scan_bodies_double s e acc [] = Some acc"
| "scan_bodies_double s e acc (k # ks) =
     (case scan_body_double s e acc k of
        None \<Rightarrow> None
      | Some acc' \<Rightarrow> scan_bodies_double s e acc' ks)"

definition calcRetrogrades_double :: "real \<Rightarrow> station list option" where
  "calcRetrogrades_double year =
     (let s = toJD_double year 1 1 0;
          e = toJD_double (d_add year 1) 1 1 0
      in map_option (sort_key st_jd) (scan_bodies_double s e [] retro_bodies))"

section \<open>Notions of the proofs\<close>

text \<open>
  A longitude function moves forward at the step of the body \<open>k\<close>: the unwrapped
  difference of two consecutive samples is positive wherever the first sample is taken.
\<close>

definition direct_only :: "(real \<Rightarrow> real) \<Rightarrow> string \<Rightarrow> bool" where
  "direct_only L k = (\<forall>jd. 0 < unwrap_delta (L (jd + retro_step k) - L jd))"

text \<open>
  The samples of a scan that starts at \<open>s\<close>: the Julian day of the sample number \<open>i\<close>
  (counted from 0), the unwrapped difference of the longitude at the sample \<open>i\<close> from
  the one before, and the variables of the scan after its first \<open>m\<close> samples.
\<close>

definition sample_jd :: "string \<Rightarrow> real \<Rightarrow> nat \<Rightarrow> real" where
  "sample_jd k s i = s + real i * retro_step k"

definition sample_delta :: "(real \<Rightarrow> real) \<Rightarrow> string \<Rightarrow> real \<Rightarrow> nat \<Rightarrow> real" where
  "sample_delta L k s i = unwrap_delta (L (sample_jd k s i) - L (sample_jd k s (i - 1)))"



definition direction_at :: "(real \<Rightarrow> real) \<Rightarrow> string \<Rightarrow> real \<Rightarrow> nat \<Rightarrow> direction" where
  "direction_at L k s i = (if 0 < sample_delta L k s i then Direct else Retrograde)"

definition turns :: "(real \<Rightarrow> real) \<Rightarrow> string \<Rightarrow> real \<Rightarrow> nat \<Rightarrow> nat list" where
  "turns L k s n = filter (\<lambda>i. direction_at L k s i \<noteq> direction_at L k s (i - 1)) [2..<n]"

definition paired_turns :: "(real \<Rightarrow> real) \<Rightarrow> string \<Rightarrow> real \<Rightarrow> nat \<Rightarrow> nat list" where
  "paired_turns L k s n =
     (if direction_at L k s 1 = Direct then turns L k s n else tl (turns L k s n))"

definition turn_event ::
  "(real \<Rightarrow> real) \<Rightarrow> (real \<Rightarrow> sign_info) \<Rightarrow> string \<Rightarrow> string \<Rightarrow> string \<Rightarrow> real \<Rightarrow> nat list \<Rightarrow> nat
   \<Rightarrow> transit_event" where
  "turn_event L sg pre body k s ts j =
     (let jd = sample_jd k s (ts ! j)
      in if even j
         then station_event sg pre ''start'' body jd (L jd) None
         else station_event sg pre ''end'' body jd (L jd)
                (Some (js_round (jd - sample_jd k s (ts ! (j - 1))))))"



text \<open>
  The two conversions on whole numbers, with every floor of a quotient written as an
  integer division: the day number of \<open>toJD\<close> for the shifted year \<open>Y\<close> and month \<open>M\<close>
  (the Julian day is half a day less), and the calendar fields \<open>fromJD\<close> computes from
  a day number.
\<close>

definition jdn :: "int \<Rightarrow> int \<Rightarrow> int \<Rightarrow> int" where
  "jdn Y M d = (1461 * (Y + 4716)) div 4 + (306001 * (M + 1)) div 10000 + d + 2
               - Y div 100 + (Y div 100) div 4 - 1524"

definition civil :: "int \<Rightarrow> int \<times> int \<times> int" where
  "civil Z =
    (let alpha = (100 * Z - 186721625) div 3652425;
         A = (if Z < 2299161 then Z else Z + 1 + alpha - alpha div 4);
         B = A + 1524;
         C = (100 * B - 12210) div 36525;
         D = (1461 * C) div 4;
         E = (10000 * (B - D)) div 306001;
         day = B - D - (306001 * E) div 10000;
         month = (if E < 14 then E - 1 else E - 13);
         year = (if month > 2 then C - 4716 else C - 4715)
     in (year, month, day))"


section \<open>Facts about the remainder and the normalisation\<close>

lemma js_rem_nonneg:
  assumes "0 \<le> a" and "0 < b"
  shows "js_rem a b = a - b * of_int \<lfloor>a / b\<rfloor>"
proof -
  from assms have "\<not> a / b < 0" by (simp add: not_less)
  then show ?thesis by (simp add: js_rem_def js_trunc_def)
qed

lemma floor_rem_bounds:
  fixes a b :: real
  assumes "0 < b"
  shows "0 \<le> a - b * of_int \<lfloor>a / b\<rfloor>" and "a - b * of_int \<lfloor>a / b\<rfloor> < b"
proof -
  have "of_int \<lfloor>a / b\<rfloor> * b \<le> a"
    unfolding pos_le_divide_eq [OF assms, symmetric] by (rule of_int_floor_le)
  then have "b * of_int \<lfloor>a / b\<rfloor> \<le> a"
    by (simp add: mult.commute)
  then show "0 \<le> a - b * of_int \<lfloor>a / b\<rfloor>" by simp
  have "a < (of_int \<lfloor>a / b\<rfloor> + 1) * b"
    unfolding pos_divide_less_eq [OF assms, symmetric]
    by linarith
  then have "a < b * (of_int \<lfloor>a / b\<rfloor> + 1)"
    by (simp add: mult.commute)
  then show "a - b * of_int \<lfloor>a / b\<rfloor> < b" by (simp add: algebra_simps)
qed

lemma norm_angle_floor: "norm_angle a = a - 360 * of_int \<lfloor>a / 360\<rfloor>"
proof (cases "a < 0")
  case False
  then have "js_rem a 360 = a - 360 * of_int \<lfloor>a / 360\<rfloor>"
    by (simp add: js_rem_nonneg)
  moreover have "0 \<le> a - 360 * of_int \<lfloor>a / 360\<rfloor>"
    by (rule floor_rem_bounds) simp
  ultimately show ?thesis by (simp add: norm_angle_def Let_def)
next
  case True
  then have r: "js_rem a 360 = a - 360 * of_int \<lceil>a / 360\<rceil>"
    by (simp add: js_rem_def js_trunc_def)
  show ?thesis
  proof (cases "a / 360 = of_int \<lfloor>a / 360\<rfloor>")
    case True
    then have c: "\<lceil>a / 360\<rceil> = \<lfloor>a / 360\<rfloor>" by (simp add: ceiling_altdef)
    from True have "a = 360 * of_int \<lfloor>a / 360\<rfloor>" by simp
    then have "js_rem a 360 = 0" using r c by simp
    with r c show ?thesis by (simp add: norm_angle_def Let_def)
  next
    case False
    then have c: "\<lceil>a / 360\<rceil> = \<lfloor>a / 360\<rfloor> + 1" by (simp add: ceiling_altdef)
    have "a / 360 < of_int \<lceil>a / 360\<rceil>"
      using False c floor_correct [of "a / 360"] by simp
    then have "a < 360 * of_int \<lceil>a / 360\<rceil>" by simp
    then have "js_rem a 360 < 0" using r by simp
    then show ?thesis using r c by (simp add: norm_angle_def Let_def algebra_simps)
  qed
qed

lemma norm_angle_range: "0 \<le> norm_angle a" "norm_angle a < 360"
  using floor_rem_bounds [of 360 a] by (simp_all add: norm_angle_floor)

lemma norm_angle_id:
  assumes "0 \<le> a" and "a < 360"
  shows "norm_angle a = a"
proof -
  from assms have "\<lfloor>a / 360\<rfloor> = 0" by (simp add: floor_eq_iff)
  then show ?thesis by (simp add: norm_angle_floor)
qed

lemma norm_angle_exact_range:
  "0 \<le> norm_angle L \<and> norm_angle L < 360 \<and> norm_angle (norm_angle L) = norm_angle L"
  by (simp add: norm_angle_range norm_angle_id)

section \<open>Facts about the rounding\<close>



lemma norm_double_exact:
  assumes "0 \<le> a"
  shows "norm_double a = norm_angle a"
proof -
  have "js_rem a 360 = a - 360 * of_int \<lfloor>a / 360\<rfloor>"
    using assms by (simp add: js_rem_nonneg)
  moreover have "0 \<le> a - 360 * of_int \<lfloor>a / 360\<rfloor>"
    by (rule floor_rem_bounds) simp
  ultimately show ?thesis by (simp add: norm_double_def norm_angle_def Let_def)
qed

lemma norm_double_id:
  assumes "0 \<le> a" and "a < 360"
  shows "norm_double a = a"
  using assms by (simp add: norm_double_exact norm_angle_id)


lemma norm_double_below: "0 \<le> a \<Longrightarrow> norm_double a < 360"
  by (simp add: norm_double_exact norm_angle_range)

lemma norm_double_tiny: "norm_double (- (2 powi (- 60))) = 360"
proof -
  have r: "js_rem (- (2 powi (- 60))) 360 = - (2 powi (- 60))"
    by (simp add: js_rem_def js_trunc_def ceiling_eq_iff)
  have f: "fl (- (2 powi (- 60)) + 360) = 360"
    by (simp add: fl_def round_even_def eval_nat_numeral Let_def)
  show ?thesis unfolding norm_double_def d_add_def Let_def r f by simp
qed


section \<open>Normalisation\<close>

text \<open>
  C10 on the code. The argument \<open>-2 ^ -60\<close>, a double, is its own remainder by 360, and
  its sum with 360 rounds to 360: the normalisation returns 360, which is not below 360,
  and normalising that value again gives 0, so the function is not idempotent there.
\<close>

theorem norm_double_reaches_360:
  "norm_double (- (2 powi (- 60))) = 360 \<and>
   \<not> norm_double (- (2 powi (- 60))) < 360 \<and>
   norm_double (norm_double (- (2 powi (- 60)))) = 0 \<and>
   norm_double (norm_double (- (2 powi (- 60)))) \<noteq> norm_double (- (2 powi (- 60)))"
proof -
  have b: "norm_double 360 = 0"
    by (simp add: norm_double_def js_rem_def js_trunc_def Let_def)
  show ?thesis unfolding norm_double_tiny b by simp
qed

section \<open>Sign decomposition\<close>









section \<open>Aspect finder\<close>






section \<open>Synastry summary\<close>

lemma fl_0: "fl 0 = 0"
  by (simp add: fl_def round_even_def Let_def)

lemma collect_inner:
  "concat (map (\<lambda>y. case f (x, y) of None \<Rightarrow> [] | Some a \<Rightarrow> [g (x, y) a]) ys) =
   map (\<lambda>pr. g pr (the (f pr))) (filter (\<lambda>pr. f pr \<noteq> None) (map (Pair x) ys))"
  by (induction ys) (auto split: option.splits)

lemma collect_pairs:
  "concat (map (\<lambda>x. concat (map (\<lambda>y. case f (x, y) of None \<Rightarrow> [] | Some a \<Rightarrow> [g (x, y) a]) ys)) xs) =
   map (\<lambda>pr. g pr (the (f pr))) (filter (\<lambda>pr. f pr \<noteq> None) (List.product xs ys))"
  by (induction xs) (simp_all add: collect_inner)

lemma crossAspects_pairs:
  "crossAspects chart1 chart2 =
   map (\<lambda>pr. cross_entry pr (the (aspect_of pr))) (aspect_pairs chart1 chart2)"
proof -
  have "crossAspects chart1 chart2 =
        concat (map (\<lambda>x. concat (map (\<lambda>y. case aspect_of (x, y) of None \<Rightarrow> []
                                                | Some a \<Rightarrow> [cross_entry (x, y) a])
                                (planets chart2))) (planets chart1))"
    by (simp add: crossAspects_def aspect_of_def cross_entry_def cong: option.case_cong)
  also have "\<dots> = map (\<lambda>pr. cross_entry pr (the (aspect_of pr)))
                    (filter (\<lambda>pr. aspect_of pr \<noteq> None)
                       (List.product (planets chart1) (planets chart2)))"
    by (rule collect_pairs)
  finally show ?thesis by (simp add: aspect_pairs_def planet_pairs_def)
qed

lemma crossAspects_length:
  "length (crossAspects chart1 chart2) = length (aspect_pairs chart1 chart2)"
  by (simp add: crossAspects_pairs)

lemma crossAspects_harmonious:
  "length (filter (\<lambda>a. hit_nature (ca_hit a) = ''harmonious'') (crossAspects chart1 chart2)) =
   length (harmonious_pairs chart1 chart2)"
proof -
  have "filter (\<lambda>pr. hit_nature (the (aspect_of pr)) = ''harmonious'')
          (filter (\<lambda>pr. aspect_of pr \<noteq> None) (planet_pairs chart1 chart2)) =
        filter (\<lambda>pr. map_option hit_nature (aspect_of pr) = Some ''harmonious'')
          (planet_pairs chart1 chart2)"
    unfolding filter_filter by (rule filter_cong) auto
  then show ?thesis
    by (simp add: crossAspects_pairs filter_map o_def cross_entry_def aspect_pairs_def
        harmonious_pairs_def)
qed

lemma crossAspects_conjunctions:
  "length (filter (\<lambda>a. hit_aspect (ca_hit a) = ''conjunction'') (crossAspects chart1 chart2)) =
   length (conjunction_pairs chart1 chart2)"
proof -
  have "filter (\<lambda>pr. hit_aspect (the (aspect_of pr)) = ''conjunction'')
          (filter (\<lambda>pr. aspect_of pr \<noteq> None) (planet_pairs chart1 chart2)) =
        filter (\<lambda>pr. map_option hit_aspect (aspect_of pr) = Some ''conjunction'')
          (planet_pairs chart1 chart2)"
    unfolding filter_filter by (rule filter_cong) auto
  then show ?thesis
    by (simp add: crossAspects_pairs filter_map o_def cross_entry_def aspect_pairs_def
        conjunction_pairs_def)
qed

text \<open>
  C9, as the code has it. The summary counts the pairs of a planet of the first chart and
  a planet of the second that are in aspect, those in an aspect of harmonious nature and
  those in conjunction, and the cross-aspects are those pairs in the order of the two
  loops. The index is the rounded value of (harmonious + 0.5 * conjunctions) / total *
  100 as doubles evaluate it, the quotient rounded first and then the product; with no
  pair in aspect it is 0.
\<close>

theorem compatibility_index_formula:
  fixes chart1 chart2 :: natal_chart
  shows
  "total_aspects (summary (calculateSynastry chart1 chart2)) =
     length (aspect_pairs chart1 chart2) \<and>
   harmonious_aspects (summary (calculateSynastry chart1 chart2)) =
     length (harmonious_pairs chart1 chart2) \<and>
   conjunctions (summary (calculateSynastry chart1 chart2)) =
     length (conjunction_pairs chart1 chart2) \<and>
   map (\<lambda>a. (person1_planet a, person2_planet a, Some (ca_hit a)))
       (cross_aspects (calculateSynastry chart1 chart2)) =
     map (\<lambda>pr. (cp_name (fst pr), cp_name (snd pr), aspect_of pr)) (aspect_pairs chart1 chart2) \<and>
   compatibility_index (summary (calculateSynastry chart1 chart2)) =
     index_double (length (harmonious_pairs chart1 chart2))
       (length (conjunction_pairs chart1 chart2)) (length (aspect_pairs chart1 chart2))"
proof -
  have m: "map (\<lambda>a. (person1_planet a, person2_planet a, Some (ca_hit a)))
             (crossAspects chart1 chart2) =
           map (\<lambda>pr. (cp_name (fst pr), cp_name (snd pr), aspect_of pr))
             (aspect_pairs chart1 chart2)"
    by (auto simp: crossAspects_pairs cross_entry_def aspect_pairs_def)
  have z: "js_round (d_mul (d_div 0 1) 100) = 0"
    by (simp add: d_mul_def d_div_def fl_0 js_round_def)
  have e: "harmonious_pairs chart1 chart2 = []" "conjunction_pairs chart1 chart2 = []"
    if "aspect_pairs chart1 chart2 = []"
    using that by (auto simp: harmonious_pairs_def conjunction_pairs_def aspect_pairs_def
        filter_empty_conv)
  have i: "js_round (d_mul (d_div (real (length (harmonious_pairs chart1 chart2)) +
               real (length (conjunction_pairs chart1 chart2)) * 0.5)
               (real (if length (aspect_pairs chart1 chart2) = 0 then 1
                      else length (aspect_pairs chart1 chart2)))) 100) =
           index_double (length (harmonious_pairs chart1 chart2))
             (length (conjunction_pairs chart1 chart2)) (length (aspect_pairs chart1 chart2))"
  proof (cases "aspect_pairs chart1 chart2 = []")
    case True
    then show ?thesis by (simp add: index_double_def e z)
  next
    case False
    then show ?thesis by (simp add: index_double_def mult.commute)
  qed
  show ?thesis
    unfolding calculateSynastry_def Let_def crossAspects_length crossAspects_harmonious
      crossAspects_conjunctions
    using m i by simp
qed

lemma planets_1973:
  "chart_planets (toJD 1973 1 1 12) =
     [\<lparr>cp_name = ''Sun'', cp_longitude = 281.46\<rparr>, \<lparr>cp_name = ''Moon'', cp_longitude = 249.78\<rparr>,
      \<lparr>cp_name = ''Mercury'', cp_longitude = 221.04\<rparr>, \<lparr>cp_name = ''Venus'', cp_longitude = 224.66\<rparr>,
      \<lparr>cp_name = ''Mars'', cp_longitude = 228.29\<rparr>, \<lparr>cp_name = ''Jupiter'', cp_longitude = 294.95\<rparr>,
      \<lparr>cp_name = ''Saturn'', cp_longitude = 79.6\<rparr>, \<lparr>cp_name = ''Uranus'', cp_longitude = 197.86\<rparr>,
      \<lparr>cp_name = ''Neptune'', cp_longitude = 245.71\<rparr>, \<lparr>cp_name = ''Pluto'', cp_longitude = 199.52\<rparr>]"
proof -
  have j: "toJD 1973 1 1 12 = 2441684" by (simp add: toJD_def Let_def)
  show ?thesis
    unfolding j chart_planets_def PLANETS_def
    by (simp add: lon_def lon_in_def PLANETS_def norm_angle_floor J2000_def js_round_def)
qed

lemma planets_1986:
  "chart_planets (toJD 1986 1 1 12) =
     [\<lparr>cp_name = ''Sun'', cp_longitude = 281.09\<rparr>, \<lparr>cp_name = ''Moon'', cp_longitude = 169.43\<rparr>,
      \<lparr>cp_name = ''Mercury'', cp_longitude = 209.85\<rparr>, \<lparr>cp_name = ''Venus'', cp_longitude = 270.95\<rparr>,
      \<lparr>cp_name = ''Mars'', cp_longitude = 196.24\<rparr>, \<lparr>cp_name = ''Jupiter'', cp_longitude = 329.51\<rparr>,
      \<lparr>cp_name = ''Saturn'', cp_longitude = 238.65\<rparr>, \<lparr>cp_name = ''Uranus'', cp_longitude = 253.41\<rparr>,
      \<lparr>cp_name = ''Neptune'', cp_longitude = 274.2\<rparr>, \<lparr>cp_name = ''Pluto'', cp_longitude = 218.51\<rparr>]"
proof -
  have j: "toJD 1986 1 1 12 = 2446432" by (simp add: toJD_def Let_def)
  show ?thesis
    unfolding j chart_planets_def PLANETS_def
    by (simp add: lon_def lon_in_def PLANETS_def norm_angle_floor J2000_def js_round_def)
qed

lemma pairs_1973_1986:
  "length (aspect_pairs (chart_of ''Person 1'' 0 (toJD 1973 1 1 12))
     (chart_of ''Person 2'' 0 (toJD 1986 1 1 12))) = 20"
  "length (harmonious_pairs (chart_of ''Person 1'' 0 (toJD 1973 1 1 12))
     (chart_of ''Person 2'' 0 (toJD 1986 1 1 12))) = 7"
  "length (conjunction_pairs (chart_of ''Person 1'' 0 (toJD 1973 1 1 12))
     (chart_of ''Person 2'' 0 (toJD 1986 1 1 12))) = 9"
  unfolding chart_of_def planets_1973 planets_1986
  by (simp_all add: aspect_pairs_def harmonious_pairs_def conjunction_pairs_def planet_pairs_def
      aspect_of_def findAspect_def separation_def ASPECTS_def Let_def)

lemma tie_index: "js_round (d_mul (d_div (real 7 + real 9 * 0.5) (real 20)) 100) = 57"
  by (simp add: d_mul_def d_div_def fl_def round_even_def js_round_def eval_nat_numeral Let_def)

text \<open>
  C9 as stated fails at a tie. For two births at noon UT, on 1 January 1973 and on
  1 January 1986, twenty pairs of planets are in aspect, seven of them harmonious and
  nine conjunctions: the formula gives 57.5, which rounds to 58, and the code returns 57,
  the quotient 0.575 being rounded below its value before the product.
\<close>

theorem compatibility_index_rounds_down:
  "total_aspects (summary (calculateSynastry (chart_of ''Person 1'' 0 (toJD 1973 1 1 12))
     (chart_of ''Person 2'' 0 (toJD 1986 1 1 12)))) = 20 \<and>
   harmonious_aspects (summary (calculateSynastry (chart_of ''Person 1'' 0 (toJD 1973 1 1 12))
     (chart_of ''Person 2'' 0 (toJD 1986 1 1 12)))) = 7 \<and>
   conjunctions (summary (calculateSynastry (chart_of ''Person 1'' 0 (toJD 1973 1 1 12))
     (chart_of ''Person 2'' 0 (toJD 1986 1 1 12)))) = 9 \<and>
   compatibility_index (summary (calculateSynastry (chart_of ''Person 1'' 0 (toJD 1973 1 1 12))
     (chart_of ''Person 2'' 0 (toJD 1986 1 1 12)))) = 57 \<and>
   index_exact 7 9 20 = 58"
proof -
  have e: "index_exact 7 9 20 = 58" by (simp add: index_exact_def js_round_def)
  show ?thesis
    unfolding calculateSynastry_def Let_def crossAspects_length crossAspects_harmonious
      crossAspects_conjunctions pairs_1973_1986
    using tie_index e by simp
qed

section \<open>Midheaven\<close>

lemma degToRad_90: "degToRad 90 = pi / 2"
  by (simp add: degToRad_def)

lemma radToDeg_half_pi: "radToDeg (pi / 2) = 90"
  by (simp add: radToDeg_def)

lemma js_atan2_1_0: "js_atan2 1 0 = pi / 2"
  by (simp add: js_atan2_def)

lemma calcMidheaven_at_lst_90:
  assumes "lst jd longitude = 90"
  shows "calcMidheaven jd longitude = 90"
proof -
  have "calcMidheaven jd longitude = norm_angle (radToDeg (js_atan2 1 0))"
    using assms by (simp add: calcMidheaven_def Let_def degToRad_90)
  also have "\<dots> = norm_angle 90"
    by (simp only: js_atan2_1_0 radToDeg_half_pi)
  also have "\<dots> = 90" by (rule norm_angle_id) simp_all
  finally show ?thesis .
qed

lemma lst_example: "lst 2451545 169.53938163 = 90"
proof -
  have "gmst 2451545 = norm_angle 280.46061837" by (simp add: gmst_def Let_def)
  also have "\<dots> = 280.46061837" by (rule norm_angle_id) simp_all
  finally have g: "gmst 2451545 = 280.46061837" .
  have "lst 2451545 169.53938163 = norm_angle 450" by (simp add: lst_def g)
  also have "\<dots> = 90" by (simp add: norm_angle_floor)
  finally show ?thesis .
qed

text \<open>
  C3, as the code has it. Whenever the local sidereal time is 90 degrees, the midheaven
  is at longitude 90, the start of Cancer: the sine is 1, the cosine is 0, and
  \<open>atan2 1 0\<close> is a quarter turn. The obliquity is the constant 23.4393 and the latitude
  is not an input of the midheaven.
\<close>

theorem calcMidheaven_lst_90:
  "lst jd longitude = 90 \<Longrightarrow>
   calcMidheaven jd longitude = 90 \<and>
   getSign (calcMidheaven jd longitude) = \<lparr>sign = Some ''Cancer'', degree = 0, signIndex = 3\<rparr>"
proof -
  assume a: "lst jd longitude = 90"
  have "getSign 90 = \<lparr>sign = Some ''Cancer'', degree = 0, signIndex = 3\<rparr>"
    by (simp add: getSign_def norm_double_id js_rem_def js_trunc_def js_round_def zodiac_at_def
        ZODIAC_def Let_def)
  with calcMidheaven_at_lst_90 [OF a] show ?thesis by simp
qed

text \<open>The local sidereal time is 90 at J2000.0 at the geographic longitude 169.53938163.\<close>

theorem calcMidheaven_lst_90_witness:
  "lst 2451545 169.53938163 = 90 \<and> calcMidheaven 2451545 169.53938163 = 90 \<and>
   getSign (calcMidheaven 2451545 169.53938163) = \<lparr>sign = Some ''Cancer'', degree = 0, signIndex = 3\<rparr>"
  using calcMidheaven_lst_90 [OF lst_example] lst_example by blast

text \<open>
  C3 as stated fails there: the local sidereal time is 90 and the midheaven is neither at
  longitude 0 nor in Aries.
\<close>

theorem calcMidheaven_lst_90_not_aries:
  "lst 2451545 169.53938163 = 90 \<and> calcMidheaven 2451545 169.53938163 \<noteq> 0 \<and>
   sign (getSign (calcMidheaven 2451545 169.53938163)) \<noteq> Some ''Aries''"
proof -
  have "calcMidheaven 2451545 169.53938163 = 90"
    using calcMidheaven_at_lst_90 [OF lst_example] .
  moreover have "getSign 90 = \<lparr>sign = Some ''Cancer'', degree = 0, signIndex = 3\<rparr>"
    by (simp add: getSign_def norm_double_id js_rem_def js_trunc_def js_round_def zodiac_at_def
        ZODIAC_def Let_def)
  ultimately show ?thesis using lst_example by simp
qed

section \<open>The retrograde scan on the mean longitudes\<close>

lemma unwrap_norm_step:
  fixes x c :: real
  assumes "0 < c" and "c < 180"
  shows "unwrap_delta (norm_angle (x + c) - norm_angle x) = c"
proof -
  let ?k = "\<lfloor>x / 360\<rfloor>" and ?k' = "\<lfloor>(x + c) / 360\<rfloor>"
  have "?k \<le> ?k'" using assms by (intro floor_mono) simp
  moreover have "?k' \<le> ?k + 1"
  proof -
    have "(x + c) / 360 < x / 360 + 1" using assms by simp
    also have "\<dots> < of_int ?k + 1 + 1" by linarith
    finally have "(x + c) / 360 < of_int (?k + 2)" by simp
    then have "?k' < ?k + 2" by (simp only: floor_less_iff)
    then show ?thesis by simp
  qed
  ultimately consider "?k' = ?k" | "?k' = ?k + 1" by linarith
  then show ?thesis
  proof cases
    case 1
    then have "norm_angle (x + c) - norm_angle x = c" by (simp add: norm_angle_floor)
    with assms show ?thesis by (simp add: unwrap_delta_def Let_def)
  next
    case 2
    then have "norm_angle (x + c) - norm_angle x = c - 360" by (simp add: norm_angle_floor)
    with assms show ?thesis by (simp add: unwrap_delta_def Let_def)
  qed
qed

lemma lon_in_step:
  assumes "map_of tbl k = Some pl" and "0 < motion pl * st" and "motion pl * st < 180"
  shows "unwrap_delta (lon_in tbl k (jd + st) - lon_in tbl k jd) = motion pl * st"
proof -
  let ?x = "j2000 pl + motion pl * (jd - J2000)"
  have "j2000 pl + motion pl * (jd + st - J2000) = ?x + motion pl * st"
    by (simp add: algebra_simps)
  then have "lon_in tbl k (jd + st) = norm_angle (?x + motion pl * st)"
    using assms(1) by (simp only: lon_in_def option.case)
  moreover have "lon_in tbl k jd = norm_angle ?x"
    using assms(1) by (simp only: lon_in_def option.case)
  ultimately show ?thesis
    using unwrap_norm_step [OF assms(2) assms(3), of ?x] by simp
qed

lemma retro_sample_direct:
  assumes "scan_pD st \<noteq> Some Retrograde"
    and "\<And>p. scan_pL st = Some p \<Longrightarrow> 0 < unwrap_delta (L jd - p)"
  shows "scan_r (retro_sample L sg pre body jd st) = scan_r st"
    and "scan_pD (retro_sample L sg pre body jd st) \<noteq> Some Retrograde"
    and "scan_pL (retro_sample L sg pre body jd st) = Some (L jd)"
proof -
  have pd: "scan_pD st = None \<or> scan_pD st = Some Direct"
    using assms(1) by (cases "scan_pD st") (auto intro: direction.exhaust)
  show "scan_r (retro_sample L sg pre body jd st) = scan_r st"
    using pd assms(2) by (auto simp: retro_sample_def Let_def split: option.splits)
  show "scan_pD (retro_sample L sg pre body jd st) \<noteq> Some Retrograde"
    using pd assms(2) by (auto simp: retro_sample_def Let_def split: option.splits)
  show "scan_pL (retro_sample L sg pre body jd st) = Some (L jd)"
    by (simp add: retro_sample_def Let_def)
qed

lemma retro_loop_direct:
  "direct_only L k \<Longrightarrow>
   scan_pD st \<noteq> Some Retrograde \<Longrightarrow>
   scan_pL st = None \<or> scan_pL st = Some (L (jd - retro_step k)) \<Longrightarrow>
   scan_r (retro_loop L sg pre body k e jd st) = scan_r st"
proof (induction L sg pre body k e jd st rule: retro_loop.induct)
  case (1 L sg pre body k e jd st)
  show ?case
  proof (cases "jd < e")
    case False
    then show ?thesis by (subst retro_loop.simps) simp
  next
    case True
    have d: "0 < unwrap_delta (L jd - p)" if "scan_pL st = Some p" for p
    proof -
      from that "1.prems"(3) have "p = L (jd - retro_step k)" by simp
      moreover have "0 < unwrap_delta (L (jd - retro_step k + retro_step k) - L (jd - retro_step k))"
        using "1.prems"(1) unfolding direct_only_def by blast
      ultimately show ?thesis by simp
    qed
    note s = retro_sample_direct [of st L jd, OF "1.prems"(2) d]
    have "scan_r (retro_loop L sg pre body k e (jd + retro_step k) (retro_sample L sg pre body jd st))
          = scan_r (retro_sample L sg pre body jd st)"
      using True s "1.prems"(1) by (intro "1.IH") simp_all
    then show ?thesis using True s(1) by (subst retro_loop.simps) simp
  qed
qed

lemma scan_body_direct:
  assumes "direct_only (lonf k) k"
  shows "scan_body lonf sg tbl pre s e acc k = acc"
proof -
  let ?st = "\<lparr>scan_pL = None, scan_pD = None, scan_sJd = None, scan_r = acc\<rparr>"
  have "scan_r (retro_loop (lonf k) sg pre (body_name tbl k) k e s ?st) = scan_r ?st"
    by (rule retro_loop_direct [OF assms]) simp_all
  then show ?thesis by (simp add: scan_body_def)
qed

lemma foldl_scan_body_direct:
  assumes "\<And>k. k \<in> set ks \<Longrightarrow> direct_only (lonf k) k"
  shows "foldl (scan_body lonf sg tbl pre s e) acc ks = acc"
  using assms
proof (induction ks arbitrary: acc)
  case Nil
  show ?case by simp
next
  case (Cons k ks)
  have "scan_body lonf sg tbl pre s e acc k = acc"
    by (rule scan_body_direct) (simp add: Cons.prems)
  then show ?case using Cons by simp
qed

lemma direct_only_lon_in:
  assumes "map_of tbl k = Some pl" and "0 < motion pl" and "motion pl < 180"
  shows "direct_only (lon_in tbl k) k"
proof -
  have "0 < motion pl * retro_step k" "motion pl * retro_step k < 180"
    using assms by (auto simp: retro_step_def)
  from lon_in_step [OF assms(1) this] this(1) show ?thesis
    by (simp add: direct_only_def)
qed

lemma retro_bodies_in_table:
  assumes "k \<in> set retro_bodies"
  shows "\<exists>pl. map_of PLANETS k = Some pl \<and> 0 < motion pl \<and> motion pl < 180"
proof -
  from assms consider "k = ''mercury''" | "k = ''venus''" | "k = ''mars''" | "k = ''jupiter''"
    | "k = ''saturn''" | "k = ''uranus''" | "k = ''neptune''" | "k = ''pluto''"
    unfolding retro_bodies_def by (elim set_ConsD [THEN disjE]) simp_all
  then show ?thesis by cases (simp_all add: PLANETS_def)
qed

lemma retro_bodies_transits_in_table:
  assumes "k \<in> set retro_bodies_transits"
  shows "\<exists>pl. map_of PLANETS_transits k = Some pl \<and> 0 < motion pl \<and> motion pl < 180"
proof -
  from assms consider "k = ''mercury''" | "k = ''venus''" | "k = ''mars''" | "k = ''jupiter''"
    | "k = ''saturn''" | "k = ''uranus''" | "k = ''neptune''"
    unfolding retro_bodies_transits_def by (elim set_ConsD [THEN disjE]) simp_all
  then show ?thesis by cases (simp_all add: PLANETS_transits_def PLANETS_def)
qed

lemma direct_only_lon: "k \<in> set retro_bodies \<Longrightarrow> direct_only (lon k) k"
proof -
  assume "k \<in> set retro_bodies"
  from retro_bodies_in_table [OF this] obtain pl where
    "map_of PLANETS k = Some pl" "0 < motion pl" "motion pl < 180" by blast
  then show ?thesis unfolding lon_def by (rule direct_only_lon_in)
qed

lemma direct_only_lon_transits:
  "k \<in> set retro_bodies_transits \<Longrightarrow> direct_only (lon_transits k) k"
proof -
  assume "k \<in> set retro_bodies_transits"
  from retro_bodies_transits_in_table [OF this] obtain pl where
    "map_of PLANETS_transits k = Some pl" "0 < motion pl" "motion pl < 180" by blast
  then show ?thesis unfolding lon_transits_def by (rule direct_only_lon_in)
qed

lemma calcRetrogrades_empty: "calcRetrogrades year = []"
proof -
  have "foldl (scan_body lon getSign PLANETS ''retrograde'' s e) [] retro_bodies = []" for s e
    by (rule foldl_scan_body_direct) (rule direct_only_lon)
  then show ?thesis by (simp only: calcRetrogrades_def Let_def sort_key_simps)
qed

lemma retrogrades_empty: "retrogrades year = []"
proof -
  have "foldl (scan_body lon_transits sign_transits PLANETS_transits ''retro'' s e) []
          retro_bodies_transits = []" for s e
    by (rule foldl_scan_body_direct) (rule direct_only_lon_transits)
  then show ?thesis by (simp only: retrogrades_def Let_def sort_key_simps)
qed



text \<open>
  C1 on the code. The scan of the year 2025 reports no Mercury station at all: the number
  of its start events is 0 in both modules, not 3 or 4.
\<close>

theorem mercury_retrograde_starts_2025:
  "length (filter (\<lambda>ev. ev_body ev = ''Mercury'' \<and> ev_type ev = ''retrograde_start'')
     (calcRetrogrades 2025)) = 0 \<and>
   length (filter (\<lambda>ev. ev_body ev = ''Mercury'' \<and> ev_type ev = ''retro_start'')
     (retrogrades 2025)) = 0"
  by (simp add: calcRetrogrades_empty retrogrades_empty)

section \<open>The retrograde scan in doubles\<close>

lemma s13: "toJD_double 10000000000000 1 1 0 = 7304850003442121 / 2"
  unfolding toJD_double_def Let_def
  by (simp add: d_add_def d_sub_def d_mul_def d_div_def fl_def round_even_def
      eval_nat_numeral Let_def)

lemma e13: "toJD_double (d_add 10000000000000 1) 1 1 0 = 7304850003442851 / 2"
  unfolding toJD_double_def Let_def
  by (simp add: d_add_def d_sub_def d_mul_def d_div_def fl_def round_even_def
      eval_nat_numeral Let_def)

lemma binade_51:
  assumes "2251799813685248 \<le> x" and "x < 4503599627370496"
  shows "binade 12 (- 1022) 1024 x = 51"
  using assms by (simp add: eval_nat_numeral Let_def)

lemma round_even_of_int: "round_even (of_int k) = k"
  by (simp add: round_even_def Let_def)

lemma fl_half:
  assumes "2251799813685248 \<le> real_of_int j / 2" and "real_of_int j / 2 < 4503599627370496"
  shows "fl (of_int j / 2) = of_int j / 2"
proof -
  have a: "\<bar>real_of_int j / 2\<bar> = of_int j / 2" using assms by simp
  have b: "binade 12 (- 1022) 1024 \<bar>real_of_int j / 2\<bar> = 51"
    unfolding a by (rule binade_51 [OF assms])
  show ?thesis
    unfolding fl_def b Let_def by (simp add: round_even_of_int)
qed


lemma retro_sample_double_grows:
  "\<exists>xs. dbl_r (retro_sample_double k jd st) = dbl_r st @ xs"
  by (auto simp: retro_sample_double_def Let_def split: option.splits)

lemma retro_step_cases: "retro_step k = 1 / 2 \<or> retro_step k = 1"
  by (simp add: retro_step_def)

lemma retro_loop_double_returns:
  assumes e: "e \<le> 4503599627370495"
  shows "2251799813685248 \<le> real_of_int j / 2 \<Longrightarrow>
    \<exists>st'. retro_loop_double k e (of_int j / 2) st = Some st' \<and>
          (\<exists>xs. dbl_r st' = dbl_r st @ xs)"
proof (induction "nat \<lceil>(e - of_int j / 2) * 2\<rceil>" arbitrary: j st rule: less_induct)
  case less
  show ?case
  proof (cases "real_of_int j / 2 < e")
    case False
    then show ?thesis by (subst retro_loop_double.simps) simp
  next
    case True
    obtain c :: int where c: "retro_step k = of_int c / 2" "1 \<le> c" "c \<le> 2"
      using retro_step_cases [of k] by (elim disjE) (auto intro: that [of 1] that [of 2])
    have n: "d_add (of_int j / 2) (retro_step k) = of_int (j + c) / 2"
    proof -
      have a: "real_of_int j / 2 + retro_step k = of_int (j + c) / 2" by (simp add: c add_divide_distrib)
      have "fl (of_int (j + c) / 2) = of_int (j + c) / 2"
      proof (rule fl_half)
        show "2251799813685248 \<le> real_of_int (j + c) / 2" using less.prems c by simp
        have "real_of_int (j + c) / 2 \<le> real_of_int j / 2 + 1" using c by simp
        also have "\<dots> < e + 1" using True by simp
        also have "\<dots> \<le> 4503599627370496" using e by simp
        finally show "real_of_int (j + c) / 2 < 4503599627370496" .
      qed
      then show ?thesis unfolding d_add_def a .
    qed
    have d: "(e - real_of_int (j + c) / 2) * 2 = (e - real_of_int j / 2) * 2 - of_int c"
      by (simp add: algebra_simps add_divide_distrib)
    have "\<lceil>(e - real_of_int (j + c) / 2) * 2\<rceil> = \<lceil>(e - real_of_int j / 2) * 2\<rceil> - c"
      unfolding d by simp
    moreover have "0 < \<lceil>(e - real_of_int j / 2) * 2\<rceil>" using True by (simp add: less_ceiling_iff)
    ultimately have m: "nat \<lceil>(e - real_of_int (j + c) / 2) * 2\<rceil> < nat \<lceil>(e - real_of_int j / 2) * 2\<rceil>"
      using c by simp
    have g: "2251799813685248 \<le> real_of_int (j + c) / 2" using less.prems c by simp
    from less.hyps [OF m g, of "retro_sample_double k (of_int j / 2) st"]
    obtain st' xs where r: "retro_loop_double k e (of_int (j + c) / 2)
        (retro_sample_double k (of_int j / 2) st) = Some st'"
      "dbl_r st' = dbl_r (retro_sample_double k (of_int j / 2) st) @ xs" by blast
    from retro_sample_double_grows [of k "of_int j / 2" st]
    obtain ys where y: "dbl_r (retro_sample_double k (of_int j / 2) st) = dbl_r st @ ys" by blast
    have "retro_loop_double k e (of_int j / 2) st = Some st'"
      using True r(1) by (subst retro_loop_double.simps) (simp add: n)
    moreover have "dbl_r st' = dbl_r st @ (ys @ xs)" using r(2) y by simp
    ultimately show ?thesis by blast
  qed
qed

lemma venus_entry: "map_of PLANETS ''venus'' = Some \<lparr>name = ''Venus'', motion = 1.602, j2000 = 181.98\<rparr>"
  by (simp add: PLANETS_def)

lemma venus_lons:
  "lon_double ''venus'' (7304850003442121 / 2) = 306"
  "lon_double ''venus'' (3652425001721061) = 307"
  "lon_double ''venus'' (7304850003442123 / 2) = 308"
  "lon_double ''venus'' (3652425001721062) = 309"
  "lon_double ''venus'' (7304850003442125 / 2) = 309"
  unfolding lon_double_def venus_entry option.case
  by (simp_all add: norm_double_def J2000_def d_add_def d_sub_def d_mul_def fl_def round_even_def
      js_rem_def js_trunc_def eval_nat_numeral Let_def)


lemma fl_small: "fl 1 = 1" "fl 0 = 0"
  by (simp_all add: fl_def round_even_def eval_nat_numeral Let_def)

lemma venus_unwraps:
  "unwrap_double (d_sub 307 306) = 1" "unwrap_double (d_sub 308 307) = 1"
  "unwrap_double (d_sub 309 308) = 1" "unwrap_double (d_sub 309 309) = 0"
  by (simp_all add: unwrap_double_def d_sub_def fl_small Let_def)

lemma venus_steps:
  "d_add (7304850003442121 / 2) (retro_step ''venus'') = 3652425001721061"
  "d_add (3652425001721061) (retro_step ''venus'') = 7304850003442123 / 2"
  "d_add (7304850003442123 / 2) (retro_step ''venus'') = 3652425001721062"
  "d_add (3652425001721062) (retro_step ''venus'') = 7304850003442125 / 2"
  "d_add (7304850003442125 / 2) (retro_step ''venus'') = 3652425001721063"
  by (simp_all add: retro_step_def d_add_def fl_def round_even_def eval_nat_numeral Let_def)

lemma venus_samples:
  "retro_sample_double ''venus'' (7304850003442121 / 2)
     \<lparr>dbl_pL = None, dbl_pD = None, dbl_sJd = None, dbl_r = acc\<rparr> =
     \<lparr>dbl_pL = Some 306, dbl_pD = None, dbl_sJd = None, dbl_r = acc\<rparr>"
  "retro_sample_double ''venus'' (3652425001721061)
     \<lparr>dbl_pL = Some 306, dbl_pD = None, dbl_sJd = None, dbl_r = acc\<rparr> =
     \<lparr>dbl_pL = Some 307, dbl_pD = Some Direct, dbl_sJd = None, dbl_r = acc\<rparr>"
  "retro_sample_double ''venus'' (7304850003442123 / 2)
     \<lparr>dbl_pL = Some 307, dbl_pD = Some Direct, dbl_sJd = None, dbl_r = acc\<rparr> =
     \<lparr>dbl_pL = Some 308, dbl_pD = Some Direct, dbl_sJd = None, dbl_r = acc\<rparr>"
  "retro_sample_double ''venus'' (3652425001721062)
     \<lparr>dbl_pL = Some 308, dbl_pD = Some Direct, dbl_sJd = None, dbl_r = acc\<rparr> =
     \<lparr>dbl_pL = Some 309, dbl_pD = Some Direct, dbl_sJd = None, dbl_r = acc\<rparr>"
  "retro_sample_double ''venus'' (7304850003442125 / 2)
     \<lparr>dbl_pL = Some 309, dbl_pD = Some Direct, dbl_sJd = None, dbl_r = acc\<rparr> =
     \<lparr>dbl_pL = Some 309, dbl_pD = Some Retrograde, dbl_sJd = Some (7304850003442125 / 2),
      dbl_r = acc @ [station_double ''start'' ''Venus'' (7304850003442125 / 2) None]\<rparr>"
  unfolding retro_sample_double_def venus_lons Let_def
  by (simp_all add: venus_unwraps body_name_def venus_entry)

lemma venus_scan:
  "\<exists>xs. scan_body_double (7304850003442121 / 2) (7304850003442851 / 2) acc ''venus'' =
     Some (acc @ station_double ''start'' ''Venus'' (7304850003442125 / 2) None # xs)"
proof -
  let ?e = "7304850003442851 / 2 :: real"
  have "retro_loop_double ''venus'' ?e (7304850003442121 / 2)
          \<lparr>dbl_pL = None, dbl_pD = None, dbl_sJd = None, dbl_r = acc\<rparr> =
        retro_loop_double ''venus'' ?e (3652425001721061)
          \<lparr>dbl_pL = Some 306, dbl_pD = None, dbl_sJd = None, dbl_r = acc\<rparr>"
    by (subst retro_loop_double.simps) (simp add: venus_steps venus_samples)
  also have "\<dots> = retro_loop_double ''venus'' ?e (7304850003442123 / 2)
          \<lparr>dbl_pL = Some 307, dbl_pD = Some Direct, dbl_sJd = None, dbl_r = acc\<rparr>"
    by (subst retro_loop_double.simps) (simp add: venus_steps venus_samples)
  also have "\<dots> = retro_loop_double ''venus'' ?e (3652425001721062)
          \<lparr>dbl_pL = Some 308, dbl_pD = Some Direct, dbl_sJd = None, dbl_r = acc\<rparr>"
    by (subst retro_loop_double.simps) (simp add: venus_steps venus_samples)
  also have "\<dots> = retro_loop_double ''venus'' ?e (7304850003442125 / 2)
          \<lparr>dbl_pL = Some 309, dbl_pD = Some Direct, dbl_sJd = None, dbl_r = acc\<rparr>"
    by (subst retro_loop_double.simps) (simp add: venus_steps venus_samples)
  also have "\<dots> = retro_loop_double ''venus'' ?e 3652425001721063
          \<lparr>dbl_pL = Some 309, dbl_pD = Some Retrograde, dbl_sJd = Some (7304850003442125 / 2),
           dbl_r = acc @ [station_double ''start'' ''Venus'' (7304850003442125 / 2) None]\<rparr>"
    by (subst retro_loop_double.simps) (simp add: venus_steps venus_samples)
  finally have u: "retro_loop_double ''venus'' ?e (7304850003442121 / 2)
          \<lparr>dbl_pL = None, dbl_pD = None, dbl_sJd = None, dbl_r = acc\<rparr> =
        retro_loop_double ''venus'' ?e (real_of_int 7304850003442126 / 2)
          \<lparr>dbl_pL = Some 309, dbl_pD = Some Retrograde, dbl_sJd = Some (7304850003442125 / 2),
           dbl_r = acc @ [station_double ''start'' ''Venus'' (7304850003442125 / 2) None]\<rparr>"
    by simp
  have "?e \<le> 4503599627370495" "2251799813685248 \<le> real_of_int 7304850003442126 / 2" by simp_all
  from retro_loop_double_returns [OF this, of "''venus''"
      "\<lparr>dbl_pL = Some 309, dbl_pD = Some Retrograde, dbl_sJd = Some (7304850003442125 / 2),
        dbl_r = acc @ [station_double ''start'' ''Venus'' (7304850003442125 / 2) None]\<rparr>"]
  obtain st' xs where "retro_loop_double ''venus'' ?e (real_of_int 7304850003442126 / 2)
          \<lparr>dbl_pL = Some 309, dbl_pD = Some Retrograde, dbl_sJd = Some (7304850003442125 / 2),
           dbl_r = acc @ [station_double ''start'' ''Venus'' (7304850003442125 / 2) None]\<rparr> = Some st'"
    "dbl_r st' = (acc @ [station_double ''start'' ''Venus'' (7304850003442125 / 2) None]) @ xs"
    by auto
  then show ?thesis unfolding scan_body_double_def u by simp
qed

lemma scan_body_double_returns:
  "\<exists>xs. scan_body_double (7304850003442121 / 2) (7304850003442851 / 2) acc k = Some (acc @ xs)"
proof -
  have "(7304850003442851 / 2 :: real) \<le> 4503599627370495"
    "2251799813685248 \<le> real_of_int 7304850003442121 / 2" by simp_all
  from retro_loop_double_returns [OF this, of k
      "\<lparr>dbl_pL = None, dbl_pD = None, dbl_sJd = None, dbl_r = acc\<rparr>"]
  show ?thesis unfolding scan_body_double_def by auto
qed

lemma scan_bodies_double_returns:
  "acc \<noteq> [] \<Longrightarrow>
   \<exists>r. scan_bodies_double (7304850003442121 / 2) (7304850003442851 / 2) acc ks = Some r \<and> r \<noteq> []"
proof (induction ks arbitrary: acc)
  case Nil
  then show ?case by simp
next
  case (Cons k ks)
  from scan_body_double_returns [of acc k] obtain xs where
    x: "scan_body_double (7304850003442121 / 2) (7304850003442851 / 2) acc k = Some (acc @ xs)"
    by blast
  from Cons.prems have "acc @ xs \<noteq> []" by simp
  from Cons.IH [OF this] show ?case by (simp add: x)
qed

lemma retro_loop_double_stuck:
  assumes "d_add jd (retro_step k) = jd" and "jd < e"
  shows "retro_loop_double k e jd st = None"
proof (rule ccontr)
  assume "retro_loop_double k e jd st \<noteq> None"
  then obtain y where y: "retro_loop_double k e jd st = Some y" by auto
  have "\<not> (d_add jd (retro_step k) = jd \<and> jd < e)"
  proof (rule retro_loop_double.raw_induct
      [where P = "\<lambda>k e jd st y. \<not> (d_add jd (retro_step k) = jd \<and> jd < e)", OF _ y])
    fix f :: "string \<Rightarrow> real \<Rightarrow> real \<Rightarrow> scan_double \<Rightarrow> scan_double option"
      and k e jd st y
    assume ih: "\<And>k e jd st y. f k e jd st = Some y \<Longrightarrow>
                  \<not> (d_add jd (retro_step k) = jd \<and> jd < e)"
      and st: "(if jd < e then f k e (d_add jd (retro_step k)) (retro_sample_double k jd st)
               else Some st) = Some y"
    show "\<not> (d_add jd (retro_step k) = jd \<and> jd < e)"
    proof
      assume a: "d_add jd (retro_step k) = jd \<and> jd < e"
      with st have "f k e jd (retro_sample_double k jd st) = Some y" by simp
      from ih [OF this] a show False by simp
    qed
  qed
  with assms show False by simp
qed

lemma s14: "toJD_double 100000000000000 1 1 0 = 36524250001721048"
  unfolding toJD_double_def Let_def
  by (simp add: d_add_def d_sub_def d_mul_def d_div_def fl_def round_even_def
      eval_nat_numeral Let_def)

lemma e14: "toJD_double (d_add 100000000000000 1) 1 1 0 = 36524250001721416"
  unfolding toJD_double_def Let_def
  by (simp add: d_add_def d_sub_def d_mul_def d_div_def fl_def round_even_def
      eval_nat_numeral Let_def)

lemma stuck14: "d_add 36524250001721048 (retro_step ''mercury'') = 36524250001721048"
  by (simp add: retro_step_def d_add_def fl_def round_even_def eval_nat_numeral Let_def)

lemma calcRetrogrades_double_diverges: "calcRetrogrades_double 100000000000000 = None"
proof -
  have "scan_body_double 36524250001721048 36524250001721416 [] ''mercury'' = None"
    unfolding scan_body_double_def
    by (simp add: retro_loop_double_stuck [OF stuck14])
  then show ?thesis
    unfolding calcRetrogrades_double_def s14 e14 Let_def by (simp add: retro_bodies_def)
qed

text \<open>
  C2 as stated fails for years far from the present. In the scan of the year \<open>10\<^sup>1\<^sup>3\<close> the
  Julian days are near \<open>3.65 * 10\<^sup>1\<^sup>5\<close>, where the doubles are half a day apart and the
  longitudes are whole degrees: two consecutive half-day samples of Venus both read 309,
  the unwrapped difference is 0, the direction is retrograde, and the scan returns with
  at least one event. In the scan of the year \<open>10\<^sup>1\<^sup>4\<close> the sum of the Julian day and the
  step rounds to the Julian day and the scan of Mercury never returns.
\<close>

theorem retrograde_scan_emits_in_doubles:
  "map_option (\<lambda>r. r \<noteq> []) (calcRetrogrades_double 10000000000000) = Some True \<and>
   lon_double ''venus'' 3652425001721062 = 309 \<and>
   lon_double ''venus'' (7304850003442125 / 2) = 309 \<and>
   \<not> 0 < unwrap_double (d_sub (lon_double ''venus'' (7304850003442125 / 2))
                                (lon_double ''venus'' 3652425001721062)) \<and>
   calcRetrogrades_double 100000000000000 = None"
proof -
  let ?s = "7304850003442121 / 2 :: real" and ?e = "7304850003442851 / 2 :: real"
  from scan_body_double_returns [of "[]" "''mercury''"] obtain xs where
    m: "scan_body_double ?s ?e [] ''mercury'' = Some xs" by auto
  from venus_scan [of xs] obtain ys where
    v: "scan_body_double ?s ?e xs ''venus'' =
          Some (xs @ station_double ''start'' ''Venus'' (7304850003442125 / 2) None # ys)" by blast
  have "xs @ station_double ''start'' ''Venus'' (7304850003442125 / 2) None # ys \<noteq> []" by simp
  from scan_bodies_double_returns [OF this,
      of "[''mars'', ''jupiter'', ''saturn'', ''uranus'', ''neptune'', ''pluto'']"]
  obtain r where r: "scan_bodies_double ?s ?e
      (xs @ station_double ''start'' ''Venus'' (7304850003442125 / 2) None # ys)
      [''mars'', ''jupiter'', ''saturn'', ''uranus'', ''neptune'', ''pluto''] = Some r" "r \<noteq> []"
    by blast
  have "scan_bodies_double ?s ?e [] retro_bodies = Some r"
    using r(1) by (simp add: retro_bodies_def m v)
  then have "calcRetrogrades_double 10000000000000 = Some (sort_key st_jd r)"
    unfolding calcRetrogrades_double_def s13 e13 Let_def by simp
  moreover have "sort_key st_jd r \<noteq> []" using r(2) by (metis length_sort length_0_conv)
  ultimately show ?thesis
    by (simp add: venus_lons venus_unwraps calcRetrogrades_double_diverges)
qed



section \<open>Pairing of retrograde stations\<close>






text \<open>One sample, by the case of the scan variables before it.\<close>

lemma retro_sample_first:
  "scan_pL st = None \<Longrightarrow> retro_sample L sg pre body jd st = st\<lparr>scan_pL := Some (L jd)\<rparr>"
  by (simp add: retro_sample_def Let_def)

lemma retro_sample_second:
  "scan_pL st = Some p \<Longrightarrow> scan_pD st = None \<Longrightarrow>
   retro_sample L sg pre body jd st =
     st\<lparr>scan_pD := Some (if 0 < unwrap_delta (L jd - p) then Direct else Retrograde),
        scan_pL := Some (L jd)\<rparr>"
  by (simp add: retro_sample_def Let_def)









lemma turns_Suc:
  "2 \<le> m \<Longrightarrow> turns L k s (Suc m) =
     turns L k s m @ (if direction_at L k s m \<noteq> direction_at L k s (m - 1) then [m] else [])"
  by (simp add: turns_def)

lemma turn_event_append:
  "j < length ts \<Longrightarrow> turn_event L sg pre body k s (ts @ us) j = turn_event L sg pre body k s ts j"
  by (simp add: turn_event_def nth_append Let_def)

lemma stations_snoc:
  "map (turn_event L sg pre body k s (ts @ [c])) [0..<length (ts @ [c])] =
   map (turn_event L sg pre body k s ts) [0..<length ts] @
     [turn_event L sg pre body k s (ts @ [c]) (length ts)]"
  by (simp add: turn_event_append)




lemma direction_cases:
  "direction_at L k s i = Direct \<or> direction_at L k s i = Retrograde"
  by (cases "direction_at L k s i") simp_all

lemma turns_parity:
  "2 \<le> m \<Longrightarrow>
   even (length (turns L k s m)) \<longleftrightarrow> direction_at L k s (m - 1) = direction_at L k s 1"
proof (induction m)
  case 0
  then show ?case by simp
next
  case (Suc m)
  show ?case
  proof (cases "m = 1")
    case True
    then show ?thesis by (simp add: turns_def)
  next
    case False
    with Suc.prems have m: "2 \<le> m" by simp
    from Suc.IH [OF m] direction_cases [of L k s m] direction_cases [of L k s "m - 1"]
      direction_cases [of L k s 1]
    show ?thesis by (auto simp: turns_Suc [OF m])
  qed
qed

lemma paired_same:
  "2 \<le> m \<Longrightarrow> direction_at L k s m = direction_at L k s (m - 1) \<Longrightarrow>
   paired_turns L k s (Suc m) = paired_turns L k s m"
  by (simp add: paired_turns_def turns_Suc)

lemma paired_to_retrograde:
  assumes "2 \<le> m" and "direction_at L k s (m - 1) = Direct" and "direction_at L k s m = Retrograde"
  shows "paired_turns L k s (Suc m) = paired_turns L k s m @ [m]"
    and "even (length (paired_turns L k s m))"
proof -
  note p = turns_parity [OF assms(1), of L k s]
  show "paired_turns L k s (Suc m) = paired_turns L k s m @ [m]"
  proof (cases "direction_at L k s 1")
    case Direct
    then show ?thesis using assms by (simp add: paired_turns_def turns_Suc)
  next
    case Retrograde
    with p assms(2) have "odd (length (turns L k s m))" by simp
    then have "turns L k s m \<noteq> []" by auto
    then show ?thesis using assms Retrograde by (simp add: paired_turns_def turns_Suc)
  qed
  show "even (length (paired_turns L k s m))"
  proof (cases "direction_at L k s 1")
    case Direct
    then show ?thesis using p assms(2) by (simp add: paired_turns_def)
  next
    case Retrograde
    with p assms(2) have o: "odd (length (turns L k s m))" by simp
    then obtain a r where c: "turns L k s m = a # r" by (cases "turns L k s m") auto
    with o show ?thesis using Retrograde by (simp add: paired_turns_def)
  qed
qed

lemma paired_to_direct:
  assumes "2 \<le> m" and "direction_at L k s (m - 1) = Retrograde" and "direction_at L k s m = Direct"
  shows "paired_turns L k s m = [] \<and> paired_turns L k s (Suc m) = [] \<or>
         odd (length (paired_turns L k s m)) \<and>
         paired_turns L k s (Suc m) = paired_turns L k s m @ [m]"
proof -
  note p = turns_parity [OF assms(1), of L k s]
  show ?thesis
  proof (cases "direction_at L k s 1")
    case Direct
    with p assms(2) have "odd (length (turns L k s m))" by simp
    then show ?thesis using assms Direct by (simp add: paired_turns_def turns_Suc)
  next
    case Retrograde
    with p assms(2) have e: "even (length (turns L k s m))" by simp
    show ?thesis
    proof (cases "turns L k s m = []")
      case True
      then show ?thesis using assms Retrograde by (simp add: paired_turns_def turns_Suc)
    next
      case False
      then obtain a r where c: "turns L k s m = a # r" by (cases "turns L k s m") auto
      with e have "odd (length r)" by simp
      then show ?thesis using assms Retrograde c by (simp add: paired_turns_def turns_Suc)
    qed
  qed
qed





lemma paired_turns_alternate:
  "2 \<le> n \<Longrightarrow> j < length (paired_turns L k s n) \<Longrightarrow>
   2 \<le> paired_turns L k s n ! j \<and> paired_turns L k s n ! j < n \<and>
   direction_at L k s (paired_turns L k s n ! j) = (if even j then Retrograde else Direct) \<and>
   direction_at L k s (paired_turns L k s n ! j - 1) = (if even j then Direct else Retrograde)"
proof (induction n arbitrary: j)
  case 0
  then show ?case by simp
next
  case (Suc m)
  show ?case
  proof (cases "m = 1")
    case True
    have "paired_turns L k s (Suc (Suc 0)) = []" by (simp add: paired_turns_def turns_def)
    with Suc.prems(2) True show ?thesis by simp
  next
    case False
    with Suc.prems have m: "2 \<le> m" by simp
    let ?P = "paired_turns L k s m"
    let ?d = "direction_at L k s m" and ?pd = "direction_at L k s (m - 1)"
    have old: "2 \<le> ?P ! j \<and> ?P ! j < Suc m \<and>
      direction_at L k s (?P ! j) = (if even j then Retrograde else Direct) \<and>
      direction_at L k s (?P ! j - 1) = (if even j then Direct else Retrograde)"
      if "j < length ?P"
      using Suc.IH [OF m that] by simp
    consider (same) "?d = ?pd" | (start) "?pd = Direct" "?d = Retrograde"
      | (fin) "?pd = Retrograde" "?d = Direct"
      using direction_cases [of L k s m] direction_cases [of L k s "m - 1"] by auto
    then show ?thesis
    proof cases
      case same
      with Suc.prems(2) old show ?thesis by (simp add: paired_same [OF m same])
    next
      case start
      note q = paired_to_retrograde [OF m start]
      show ?thesis
      proof (cases "j < length ?P")
        case True
        with old show ?thesis by (simp add: q(1) nth_append)
      next
        case False
        with Suc.prems(2) have "j = length ?P" by (simp add: q(1))
        then show ?thesis using q(2) start m by (simp add: q(1))
      qed
    next
      case fin
      from paired_to_direct [OF m fin] show ?thesis
      proof (elim disjE conjE)
        assume "paired_turns L k s (Suc m) = []"
        with Suc.prems(2) show ?thesis by simp
      next
        assume o: "odd (length ?P)" "paired_turns L k s (Suc m) = ?P @ [m]"
        show ?thesis
        proof (cases "j < length ?P")
          case True
          with old show ?thesis by (simp add: o(2) nth_append)
        next
          case False
          with Suc.prems(2) have "j = length ?P" by (simp add: o(2))
          then show ?thesis using o(1) fin m by (simp add: o(2))
        qed
      qed
    qed
  qed
qed





section \<open>Julian day round trip\<close>

lemma int_div_unique:
  fixes x c k :: int
  assumes "0 < c" and "c * k \<le> x" and "x < c * k + c"
  shows "x div c = k"
proof -
  have "x = c * k + (x - c * k)" by simp
  moreover have "0 \<le> x - c * k" "x - c * k < c" using assms by simp_all
  ultimately show ?thesis using assms(1) by (metis int_div_pos_eq)
qed

lemma floor_quot:
  fixes a b :: int
  shows "\<lfloor>real_of_int a / real_of_int b\<rfloor> = a div b"
  by (rule floor_divide_of_int_eq)

lemma floor_year_days: "\<lfloor>365.25 * real_of_int n\<rfloor> = (1461 * n) div 4"
proof -
  have "365.25 * real_of_int n = real_of_int (1461 * n) / real_of_int 4" by simp
  then show ?thesis by (simp only: floor_quot)
qed

lemma floor_month_days: "\<lfloor>30.6001 * real_of_int n\<rfloor> = (306001 * n) div 10000"
proof -
  have "30.6001 * real_of_int n = real_of_int (306001 * n) / real_of_int 10000" by simp
  then show ?thesis by (simp only: floor_quot)
qed

lemma floor_century: "\<lfloor>real_of_int n / 100\<rfloor> = n div 100"
  using floor_quot [of n 100] by simp

lemma floor_quarter: "\<lfloor>real_of_int n / 4\<rfloor> = n div 4"
  using floor_quot [of n 4] by simp

lemma floor_alpha: "\<lfloor>(real_of_int Z - 1867216.25) / 36524.25\<rfloor> = (100 * Z - 186721625) div 3652425"
proof -
  have "(real_of_int Z - 1867216.25) / 36524.25
        = real_of_int (100 * Z - 186721625) / real_of_int 3652425" by simp
  then show ?thesis by (simp only: floor_quot)
qed

lemma floor_C: "\<lfloor>(real_of_int B - 122.1) / 365.25\<rfloor> = (100 * B - 12210) div 36525"
proof -
  have "(real_of_int B - 122.1) / 365.25
        = real_of_int (100 * B - 12210) / real_of_int 36525" by simp
  then show ?thesis by (simp only: floor_quot)
qed

lemma floor_E: "\<lfloor>real_of_int n / 30.6001\<rfloor> = (10000 * n) div 306001"
proof -
  have "real_of_int n / 30.6001 = real_of_int (10000 * n) / real_of_int 306001" by simp
  then show ?thesis by (simp only: floor_quot)
qed

lemma toJD_int:
  "toJD (of_int y) (of_int m) (of_int d) 0 =
     of_int (jdn (if m \<le> 2 then y - 1 else y) (if m \<le> 2 then m + 12 else m) d) - 1 / 2"
proof -
  define Y where "Y = (if m \<le> 2 then y - 1 else y)"
  define M where "M = (if m \<le> 2 then m + 12 else m)"
  have a: "\<lfloor>365.25 * (real_of_int Y + 4716)\<rfloor> = (1461 * (Y + 4716)) div 4"
    using floor_year_days [of "Y + 4716"] by simp
  have b: "\<lfloor>30.6001 * (real_of_int M + 1)\<rfloor> = (306001 * (M + 1)) div 10000"
    using floor_month_days [of "M + 1"] by simp
  have y': "(if real_of_int m \<le> 2 then real_of_int y - 1 else real_of_int y) = real_of_int Y"
    by (simp add: Y_def)
  have m': "(if real_of_int m \<le> 2 then real_of_int m + 12 else real_of_int m) = real_of_int M"
    by (simp add: M_def)
  have "toJD (of_int y) (of_int m) (of_int d) 0 =
          of_int \<lfloor>365.25 * (real_of_int Y + 4716)\<rfloor> + of_int \<lfloor>30.6001 * (real_of_int M + 1)\<rfloor>
          + of_int d + 2 - of_int \<lfloor>real_of_int Y / 100\<rfloor>
          + of_int \<lfloor>real_of_int \<lfloor>real_of_int Y / 100\<rfloor> / 4\<rfloor> - 1524.5 + 0 / 24"
    unfolding toJD_def Let_def y' m' ..
  also have "\<dots> = of_int (jdn Y M d) - 1 / 2"
    unfolding a b floor_century floor_quarter jdn_def by simp
  finally show ?thesis unfolding Y_def M_def .
qed

lemma fromJD_int: "fromJD_parts (of_int Z - 1 / 2) = civil Z"
proof -
  have z: "\<lfloor>real_of_int Z - 1 / 2 + 0.5\<rfloor> = Z" by simp
  have dd: "\<lfloor>real_of_int B - real_of_int D - real_of_int k\<rfloor> = B - D - k" for B D k :: int
  proof -
    have "real_of_int B - real_of_int D - real_of_int k = real_of_int (B - D - k)" by simp
    then show ?thesis by (simp only: floor_of_int)
  qed
  show ?thesis
    unfolding fromJD_parts_def civil_def z floor_alpha floor_quarter floor_C floor_year_days
      floor_E floor_month_days dd Let_def by (rule refl)
qed

lemma year_days_split: "1461 * Y' = 4 * ((1461 * Y') div 4) + Y' mod (4::int)"
proof -
  have "(1461 * Y') mod 4 = Y' mod 4"
  proof -
    have "1461 * Y' = Y' + 4 * (365 * Y')" by simp
    then show ?thesis by (simp only: mod_mult_self2)
  qed
  then show ?thesis using mult_div_mod_eq [of 4 "1461 * Y'"] by simp
qed

lemma century_term:
  fixes Y :: int
  assumes "1919 \<le> Y" and "Y \<le> 2029"
  shows "2 - Y div 100 + (Y div 100) div 4 = - 13"
proof (cases "Y < 2000")
  case True
  with assms have "Y div 100 = 19" by (intro int_div_unique) simp_all
  then show ?thesis by simp
next
  case False
  with assms have "Y div 100 = 20" by (intro int_div_unique) simp_all
  then show ?thesis by simp
qed

lemma jdn_sum:
  fixes Y M d F q :: int
  assumes cent: "2 - Y div 100 + (Y div 100) div 4 = - 13"
    and F: "(306001 * (M + 1)) div 10000 = F"
    and q: "q = (1461 * (Y + 4716)) div 4"
  shows "jdn Y M d = q + F + d - 1537"
proof -
  have "jdn Y M d = q + F + d + (2 - Y div 100 + (Y div 100) div 4) - 1524"
    unfolding jdn_def F q by (simp only: algebra_simps)
  then show ?thesis unfolding cent by simp
qed

lemma jdn_range:
  fixes Y d F q r :: int
  assumes "1919 \<le> Y" "Y \<le> 2029" and "1 \<le> d" and "122 \<le> F" and "F + d \<le> 490"
    and "1461 * (Y + 4716) = 4 * q + r" and "0 \<le> r" "r < 4"
  shows "2415080 \<le> q + F + d - 1537" "q + F + d - 1537 < 2488128"
  using assms by simp_all

lemma alpha_term:
  fixes Z :: int
  assumes "2415080 \<le> Z" and "Z < 2488128"
  shows "(100 * Z - 186721625) div 3652425 - ((100 * Z - 186721625) div 3652425) div 4 = 12"
proof -
  let ?alpha = "(100 * Z - 186721625) div 3652425"
  have "15 = (15 * 3652425) div (3652425 :: int)" by simp
  also have "\<dots> \<le> ?alpha" using assms(1) by (intro zdiv_mono1) simp_all
  finally have a1: "15 \<le> ?alpha" .
  have "?alpha \<le> (16 * 3652425 + 3652424) div (3652425 :: int)"
    using assms(2) by (intro zdiv_mono1) simp_all
  also have "\<dots> = 16" by simp
  finally have a2: "?alpha \<le> 16" .
  from a1 a2 have "?alpha = 15 \<or> ?alpha = 16" by linarith
  then show ?thesis by auto
qed

lemma year_term:
  fixes Y' d F q r :: int
  assumes "1 \<le> d" and "122 \<le> F"
    and "1461 * Y' = 4 * q + r" and "0 \<le> r" "r < 4"
    and "400 * (F + d) < 194940 + 100 * r"
  shows "(100 * (q + F + d) - 12210) div 36525 = Y'"
proof (rule int_div_unique)
  show "(0::int) < 36525" by simp
  show "36525 * Y' \<le> 100 * (q + F + d) - 12210" using assms by simp
  show "100 * (q + F + d) - 12210 < 36525 * Y' + 36525" using assms by simp
qed

lemma month_term:
  fixes M d F :: int
  assumes "1 \<le> d"
    and "306001 * (M + 1) \<le> 10000 * (F + 1)"
    and "10000 * (F + d) < 306001 * (M + 2)"
  shows "(10000 * (F + d)) div 306001 = M + 1"
proof (rule int_div_unique)
  show "(0::int) < 306001" by simp
  show "306001 * (M + 1) \<le> 10000 * (F + d)" using assms by simp
  show "10000 * (F + d) < 306001 * (M + 1) + 306001" using assms by simp
qed

lemma civil_jdn:
  fixes Y M d F :: int
  assumes Y: "1919 \<le> Y" "Y \<le> 2029"
    and M: "3 \<le> M" "M \<le> 14"
    and F: "(306001 * (M + 1)) div 10000 = F"
    and d: "1 \<le> d"
    and lo: "306001 * (M + 1) \<le> 10000 * (F + 1)"
    and hi: "10000 * (F + d) < 306001 * (M + 2)"
    and c1: "122 \<le> F" and c0: "F + d \<le> 490"
    and c2: "400 * (F + d) < 194940 + 100 * ((Y + 4716) mod 4)"
  shows "civil (jdn Y M d) = (if M \<le> 12 then (Y, M, d) else (Y + 1, M - 12, d))"
proof -
  define Y' where "Y' = Y + 4716"
  define q where "q = (1461 * Y') div 4"
  define r where "r = Y' mod 4"
  have qr: "1461 * Y' = 4 * q + r" unfolding q_def r_def by (rule year_days_split)
  have r: "0 \<le> r" "r < 4" unfolding r_def by simp_all
  define Z where "Z = q + F + d - 1537"
  have Z: "jdn Y M d = Z"
    unfolding Z_def by (rule jdn_sum [OF century_term [OF Y] F]) (simp add: q_def Y'_def)
  have Zr: "2415080 \<le> Z" "Z < 2488128"
    unfolding Z_def using jdn_range [OF Y d c1 c0 qr [unfolded Y'_def] r] by simp_all
  note a = alpha_term [OF Zr]
  define B where "B = q + F + d"
  have A: "(if Z < 2299161 then Z
            else Z + 1 + (100 * Z - 186721625) div 3652425
                 - ((100 * Z - 186721625) div 3652425) div 4) + 1524 = B"
    using Zr(1) a unfolding B_def Z_def by simp
  have C: "(100 * B - 12210) div 36525 = Y'"
    unfolding B_def using c2 unfolding Y'_def [symmetric] r_def [symmetric]
    by (intro year_term [OF d c1 qr r])
  have D: "(1461 * Y') div 4 = q" by (simp add: q_def)
  have BD: "B - q = F + d" by (simp add: B_def)
  note E = month_term [OF d lo hi]
  have day: "F + d - (306001 * (M + 1)) div 10000 = d" unfolding F by simp
  have "civil Z = (if 2 < (if M + 1 < 14 then M + 1 - 1 else M + 1 - 13) then Y' - 4716
                   else Y' - 4715,
                   if M + 1 < 14 then M + 1 - 1 else M + 1 - 13, d)"
    unfolding civil_def Let_def A C D BD E day by (rule refl)
  also have "\<dots> = (if M \<le> 12 then (Y, M, d) else (Y + 1, M - 12, d))"
    using M by (cases "M \<le> 12") (simp_all add: Y'_def)
  finally show ?thesis by (simp only: Z)
qed


lemma round_trip_month:
  fixes y m d Y M F dim :: int
  assumes y: "1920 \<le> y" "y \<le> 2029"
    and d: "1 \<le> d" "d \<le> dim"
    and m: "1 \<le> m" "m \<le> 12"
    and Y: "Y = (if m \<le> 2 then y - 1 else y)"
    and M: "M = (if m \<le> 2 then m + 12 else m)" "3 \<le> M" "M \<le> 14"
    and F: "(306001 * (M + 1)) div 10000 = F"
    and lo: "306001 * (M + 1) \<le> 10000 * (F + 1)"
    and hi: "10000 * (F + dim) < 306001 * (M + 2)"
    and c1: "122 \<le> F" and c0: "F + dim \<le> 488"
    and leap: "F + dim \<le> 487 \<or> (Y + 4716) mod 4 = 3"
  shows "fromJD_parts (toJD (of_int y) (of_int m) (of_int d) 0) = (y, m, d)"
proof -
  have Yr: "1919 \<le> Y" "Y \<le> 2029" using y by (simp_all add: Y)
  have hi': "10000 * (F + d) < 306001 * (M + 2)" using hi d(2) by simp
  have c0': "F + d \<le> 490" using c0 d(2) by simp
  have r: "0 \<le> (Y + 4716) mod 4" by simp
  have c2: "400 * (F + d) < 194940 + 100 * ((Y + 4716) mod 4)"
    using leap
  proof
    assume "F + dim \<le> 487"
    with d(2) r show ?thesis by simp
  next
    assume "(Y + 4716) mod 4 = 3"
    with d(2) c0 show ?thesis by simp
  qed
  have "fromJD_parts (toJD (of_int y) (of_int m) (of_int d) 0) = civil (jdn Y M d)"
    unfolding toJD_int Y M(1) by (rule fromJD_int)
  also have "\<dots> = (if M \<le> 12 then (Y, M, d) else (Y + 1, M - 12, d))"
    by (rule civil_jdn [OF Yr M(2) M(3) F d(1) lo hi' c1 c0' c2])
  also have "\<dots> = (y, m, d)"
    using m by (cases "m \<le> 2") (simp_all add: Y M(1))
  finally show ?thesis .
qed

lemma leap_year_in_range:
  assumes "1920 \<le> y" and "y \<le> 2029" and "leap_year y"
  shows "(y - 1 + 4716) mod 4 = 3"
proof -
  from assms(3) have "y mod 4 = 0" by (simp add: leap_year_def)
  then show ?thesis by presburger
qed

lemma round_trip_natal:
  assumes "valid_date y m d" and "1920 \<le> y" and "y \<le> 2029"
  shows "fromJD_parts (toJD (of_int y) (of_int m) (of_int d) 0) = (y, m, d)"
proof -
  from assms(1) have m: "1 \<le> m" "m \<le> 12" and d: "1 \<le> d" "d \<le> days_in_month y m"
    by (simp_all add: valid_date_def)
  note rt = round_trip_month [OF assms(2) assms(3) d m]
  from m have "m = 1 \<or> m = 2 \<or> m = 3 \<or> m = 4 \<or> m = 5 \<or> m = 6 \<or> m = 7
    \<or> m = 8 \<or> m = 9 \<or> m = 10 \<or> m = 11 \<or> m = 12" by presburger
  then consider "m = 1" | "m = 2" | "m = 3" | "m = 4" | "m = 5" | "m = 6" | "m = 7"
    | "m = 8" | "m = 9" | "m = 10" | "m = 11" | "m = 12" by blast
  then show ?thesis
  proof cases
    case 1
    show ?thesis by (rule rt [of "y - 1" 13 428]) (simp_all add: 1 days_in_month_def)
  next
    case 2
    have "459 + days_in_month y 2 \<le> 487 \<or> (y - 1 + 4716) mod 4 = 3"
      using leap_year_in_range [OF assms(2) assms(3)] by (auto simp: days_in_month_def)
    then show ?thesis
      by (intro rt [of "y - 1" 14 459]) (simp_all add: 2 days_in_month_def)
  next
    case 3
    show ?thesis by (rule rt [of y 3 122]) (simp_all add: 3 days_in_month_def)
  next
    case 4
    show ?thesis by (rule rt [of y 4 153]) (simp_all add: 4 days_in_month_def)
  next
    case 5
    show ?thesis by (rule rt [of y 5 183]) (simp_all add: 5 days_in_month_def)
  next
    case 6
    show ?thesis by (rule rt [of y 6 214]) (simp_all add: 6 days_in_month_def)
  next
    case 7
    show ?thesis by (rule rt [of y 7 244]) (simp_all add: 7 days_in_month_def)
  next
    case 8
    show ?thesis by (rule rt [of y 8 275]) (simp_all add: 8 days_in_month_def)
  next
    case 9
    show ?thesis by (rule rt [of y 9 306]) (simp_all add: 9 days_in_month_def)
  next
    case 10
    show ?thesis by (rule rt [of y 10 336]) (simp_all add: 10 days_in_month_def)
  next
    case 11
    show ?thesis by (rule rt [of y 11 367]) (simp_all add: 11 days_in_month_def)
  next
    case 12
    show ?thesis by (rule rt [of y 12 397]) (simp_all add: 12 days_in_month_def)
  qed
qed

text \<open>
  C6. For every calendar date from 1920-01-01 through 2029-12-31, converting the date to
  a Julian day and back returns the date, with the conversion of either module.
\<close>

theorem julian_day_round_trip:
  assumes "valid_date y m d" and "1920 \<le> y" and "y \<le> 2029"
  shows "fromJD_parts (toJD (of_int y) (of_int m) (of_int d) 0) = (y, m, d) \<and>
         fromJD_parts (toJD_transits (of_int y) (of_int m) (of_int d)) = (y, m, d)"
proof -
  have "toJD_transits (of_int y) (of_int m) (of_int d) = toJD (of_int y) (of_int m) (of_int d) 0"
    by (simp add: toJD_transits_def toJD_def Let_def)
  moreover have "fromJD_parts (toJD (of_int y) (of_int m) (of_int d) 0) = (y, m, d)"
    using assms by (rule round_trip_natal)
  ultimately show ?thesis by simp
qed

text \<open>The theorem on the leap day 2024-02-29.\<close>

theorem julian_day_round_trip_witness:
  "valid_date 2024 2 29 \<and> fromJD_parts (toJD 2024 2 29 0) = (2024, 2, 29) \<and>
   fromJD_parts (toJD_transits 2024 2 29) = (2024, 2, 29)"
proof -
  have v: "valid_date 2024 2 29"
    by (simp add: valid_date_def days_in_month_def leap_year_def)
  from julian_day_round_trip [OF v] v show ?thesis by simp
qed

section \<open>Bisection of a lunar phase\<close>













end
